theory Spec2Isabelle
  imports
    Main
    "HOL-Library.Char_ord"
    "HOL-Library.List_Lexorder"
    "HOL-Library.Sublist"
begin

section \<open>Strings\<close>

text \<open>
  A Python \<open>str\<close> is modelled as the list of its code points. HOL's \<open>char\<close> covers the
  code points below 256, which is where every character the script tests for lives.
  Comparison of strings (\<open>sorted\<close>) is lexicographic on code points, as provided by
  \<open>List_Lexorder\<close> over \<open>Char_ord\<close>.
\<close>

text \<open>The characters for which \<open>str.isspace\<close> holds (and which \<open>str.strip()\<close> removes).\<close>

definition whitespace :: "char list" where
  "whitespace =
     [CHR 0x09, CHR 0x0A, CHR 0x0B, CHR 0x0C, CHR 0x0D,
      CHR 0x1C, CHR 0x1D, CHR 0x1E, CHR 0x1F, CHR 0x20, CHR 0x85, CHR 0xA0]"

definition isspace_char :: "char \<Rightarrow> bool" where
  "isspace_char c = (c \<in> set whitespace)"

text \<open>\<open>s.isspace()\<close>: at least one character, and all of them whitespace.\<close>

definition isspace :: "string \<Rightarrow> bool" where
  "isspace s = (s \<noteq> [] \<and> list_all isspace_char s)"

text \<open>\<open>s.strip()\<close> and \<open>s.strip('_')\<close>: drop the matching characters at both ends.\<close>

definition strip_with :: "(char \<Rightarrow> bool) \<Rightarrow> string \<Rightarrow> string" where
  "strip_with p s = rev (dropWhile p (rev (dropWhile p s)))"

definition strip :: "string \<Rightarrow> string" where
  "strip s = strip_with isspace_char s"

text \<open>\<open>s.replace(a, b)\<close> for one-character \<open>a\<close> and \<open>b\<close>.\<close>

definition replace_char :: "char \<Rightarrow> char \<Rightarrow> string \<Rightarrow> string" where
  "replace_char a b s = map (\<lambda>c. if c = a then b else c) s"

text \<open>\<open>s.startswith(p)\<close> and \<open>s.endswith(p)\<close>.\<close>

definition startswith :: "string \<Rightarrow> string \<Rightarrow> bool" where
  "startswith s p = prefix p s"

definition endswith :: "string \<Rightarrow> string \<Rightarrow> bool" where
  "endswith s p = suffix p s"


section \<open>\<open>sanitize_filename\<close>\<close>

text \<open>
  The character class of the pattern \<^verbatim>\<open>r'[<>:"/\\|?*]'\<close>: in the raw string the two
  backslashes are one escaped backslash, so the class has nine members.
\<close>

definition invalid_chars :: "char list" where
  "invalid_chars =
     [CHR ''<'', CHR ''>'', CHR '':'', CHR 0x22, CHR ''/'', CHR 0x5C,
      CHR ''|'', CHR ''?'', CHR ''*'']"

text \<open>\<open>re.sub(r'[...]', '', title)\<close>: every match of the class is replaced by nothing.\<close>

definition re_sub_invalid :: "string \<Rightarrow> string" where
  "re_sub_invalid title = filter (\<lambda>c. c \<notin> set invalid_chars) title"

definition sanitize_filename :: "string \<Rightarrow> string" where
  "sanitize_filename title =
     (let filename = re_sub_invalid title;
          filename = replace_char (CHR '' '') (CHR ''_'') filename;
          filename = take 200 filename
      in filename)"


section \<open>\<open>extract_date_from_url\<close>\<close>

text \<open>
  \<open>\d\<close> on a \<open>str\<close> pattern matches the decimal digits; below code point 256 these are
  \<open>0\<close> to \<open>9\<close>.
\<close>

definition is_digit :: "char \<Rightarrow> bool" where
  "is_digit c = (c \<in> set ''0123456789'')"

text \<open>
  The pattern \<^verbatim>\<open>/(\d{4})/(\d{2})/(\d{2})/\<close> tried at the start of \<open>s\<close>. It has no
  alternatives and a fixed width of twelve characters, so there is at most one way to match.
\<close>

definition match_date :: "string \<Rightarrow> (string \<times> string \<times> string) option" where
  "match_date s =
     (let year = take 4 (drop 1 s); month = take 2 (drop 6 s); day = take 2 (drop 9 s)
      in if 12 \<le> length s
            \<and> s ! 0 = CHR ''/'' \<and> list_all is_digit year
            \<and> s ! 5 = CHR ''/'' \<and> list_all is_digit month
            \<and> s ! 8 = CHR ''/'' \<and> list_all is_digit day
            \<and> s ! 11 = CHR ''/''
         then Some (year, month, day) else None)"

text \<open>\<open>re.search\<close>: the match at the leftmost position where the pattern matches.\<close>

fun re_search_date :: "string \<Rightarrow> (string \<times> string \<times> string) option" where
  "re_search_date [] = None"
| "re_search_date (c # cs) =
     (case match_date (c # cs) of
        Some groups \<Rightarrow> Some groups
      | None \<Rightarrow> re_search_date cs)"

definition extract_date_from_url :: "string \<Rightarrow> string option" where
  "extract_date_from_url url =
     (case re_search_date url of
        Some (year, month, day) \<Rightarrow> Some (year @ ''-'' @ month @ ''-'' @ day)
      | None \<Rightarrow> None)"


section \<open>The file name of a post\<close>

text \<open>
  Lines 149 to 161 of \<open>download_and_convert_to_pdf\<close>: the base name of the output file,
  from the title of the post and its URL. The argument \<open>urlparse_path\<close> stands for
  \<open>urlparse(url).path\<close> of the standard library.
\<close>

text \<open>Lines 153 to 156: the name taken from the path of the URL.\<close>

definition fallback_filename :: "(string \<Rightarrow> string) \<Rightarrow> string \<Rightarrow> string" where
  "fallback_filename urlparse_path url =
     (let filename =
            strip_with (\<lambda>c. c = CHR ''_'')
              (replace_char (CHR ''/'') (CHR ''_'') (urlparse_path url))
      in if filename = [] then ''blog_post'' else filename)"

text \<open>Lines 149 to 156: the name before the date is put in front.\<close>

definition base_filename :: "(string \<Rightarrow> string) \<Rightarrow> string \<Rightarrow> string \<Rightarrow> string" where
  "base_filename urlparse_path title url =
     (let filename = sanitize_filename title
      in if filename = [] \<or> isspace filename then fallback_filename urlparse_path url
         else filename)"

text \<open>Lines 158 to 161; \<open>if date:\<close> holds for a string that is not empty.\<close>

definition post_filename :: "(string \<Rightarrow> string) \<Rightarrow> string \<Rightarrow> string \<Rightarrow> string" where
  "post_filename urlparse_path title url =
     (let filename = base_filename urlparse_path title url
      in case extract_date_from_url url of
           Some date \<Rightarrow> if date \<noteq> [] then date @ ''_'' @ filename else filename
         | None \<Rightarrow> filename)"


section \<open>Parsed documents\<close>

text \<open>
  The part of a BeautifulSoup tree the script looks at: a tag has a name, attributes and
  contents; the leaves are strings. Every string has a class. Ordinary text is of the class
  \<open>NavigableString\<close> itself, here \<open>Plain\<close>; the parser gives the text of a \<open>script\<close>,
  \<open>style\<close> or \<open>template\<close> element, a ruby annotation, a comment, a declaration, a doctype
  and a processing instruction a subclass of its own. The \<open>BeautifulSoup\<close> object itself is
  the tag named \<open>[document]\<close> at the root.
\<close>

datatype string_class =
    Plain | CData | Comment | Declaration | Doctype | ProcessingInstruction
  | Stylesheet | Script | TemplateString | RubyTextString | RubyParenthesisString

datatype element =
    Tag (tag_name: string) (attrs: "(string \<times> string) list") (contents: "element list")
  | NavigableString string_class string

text \<open>All elements below a node, in document order.\<close>

fun descendants :: "element \<Rightarrow> element list" where
  "descendants (Tag n a cs) = concat (map (\<lambda>c. c # descendants c) cs)"
| "descendants (NavigableString c s) = []"

fun is_tag :: "element \<Rightarrow> bool" where
  "is_tag (Tag n a cs) = True"
| "is_tag (NavigableString c s) = False"

text \<open>\<open>soup.find_all(...)\<close> with a criterion on tags, and \<open>soup.find(...)\<close>, its first result.\<close>

definition find_all :: "(element \<Rightarrow> bool) \<Rightarrow> element \<Rightarrow> element list" where
  "find_all p soup = filter (\<lambda>e. is_tag e \<and> p e) (descendants soup)"

definition find_tag :: "string \<Rightarrow> element \<Rightarrow> element option" where
  "find_tag n soup =
     (case find_all (\<lambda>e. tag_name e = n) soup of [] \<Rightarrow> None | t # _ \<Rightarrow> Some t)"

text \<open>
  The classes of strings that a tag of a given name counts as its text. A tag that holds a
  script, a style sheet, a template or a ruby annotation counts the strings of its own class;
  every other tag counts ordinary text and CDATA sections, so that scripts, style sheets and
  comments inside it are left out.
\<close>

definition interesting_string_types :: "string \<Rightarrow> string_class list" where
  "interesting_string_types n =
     (if n = ''rt'' then [RubyTextString]
      else if n = ''rp'' then [RubyParenthesisString]
      else if n = ''style'' then [Stylesheet]
      else if n = ''script'' then [Script]
      else if n = ''template'' then [TemplateString]
      else [Plain, CData])"

text \<open>The strings below an element whose class is one of \<open>types\<close>, in document order.\<close>

fun all_strings :: "string_class list \<Rightarrow> element \<Rightarrow> string list" where
  "all_strings types (NavigableString c s) = (if c \<in> set types then [s] else [])"
| "all_strings types (Tag n a cs) = concat (map (all_strings types) cs)"

text \<open>
  \<open>element.get_text()\<close>: the strings below the tag that it counts as its text, concatenated;
  a string by itself counts when it is ordinary text or a CDATA section.
\<close>

fun get_text :: "element \<Rightarrow> string" where
  "get_text (NavigableString c s) = concat (all_strings [Plain, CData] (NavigableString c s))"
| "get_text (Tag n a cs) = concat (all_strings (interesting_string_types n) (Tag n a cs))"

text \<open>
  \<open>[link['href'] for link in soup.find_all('a', href=True)]\<close>: the targets of the anchors
  that have one, in document order.
\<close>

definition anchor_hrefs :: "element \<Rightarrow> string list" where
  "anchor_hrefs soup =
     List.map_filter (\<lambda>e. map_of (attrs e) ''href'')
       (find_all (\<lambda>e. tag_name e = ''a'') soup)"

text \<open>
  \<open>for element in soup.find_all(...): element.decompose()\<close>: the list of matches is built
  first, then every match leaves the tree together with what is below it.
\<close>

fun decompose_all :: "(element \<Rightarrow> bool) \<Rightarrow> element \<Rightarrow> element" where
  "decompose_all p (Tag n a cs) =
     Tag n a (map (decompose_all p) (filter (\<lambda>c. \<not> (is_tag c \<and> p c)) cs))"
| "decompose_all p (NavigableString c s) = NavigableString c s"

text \<open>
  The \<open>class\<close> attribute is a list of names separated by whitespace; \<open>class_=name\<close>
  matches a tag that carries the name.
\<close>

fun split_ws :: "string \<Rightarrow> string \<Rightarrow> string list" where
  "split_ws acc [] = (if acc = [] then [] else [acc])"
| "split_ws acc (c # cs) =
     (if isspace_char c then (if acc = [] then split_ws [] cs else acc # split_ws [] cs)
      else split_ws (acc @ [c]) cs)"

definition has_class :: "string \<Rightarrow> element \<Rightarrow> bool" where
  "has_class class_name e =
     (case map_of (attrs e) ''class'' of
        None \<Rightarrow> False
      | Some v \<Rightarrow> class_name \<in> set (split_ws [] v))"

text \<open>\<open>soup.head.append(style_tag)\<close> when \<open>soup.head\<close>, the first \<open>head\<close> tag, exists.\<close>

fun head_append :: "element \<Rightarrow> element \<Rightarrow> element option"
  and head_append_list :: "element \<Rightarrow> element list \<Rightarrow> element list option" where
  "head_append style_tag (NavigableString c s) = None"
| "head_append style_tag (Tag n a cs) =
     (if n = ''head'' then Some (Tag n a (cs @ [style_tag]))
      else map_option (Tag n a) (head_append_list style_tag cs))"
| "head_append_list style_tag [] = None"
| "head_append_list style_tag (c # cs) =
     (case head_append style_tag c of
        Some c' \<Rightarrow> Some (c' # cs)
      | None \<Rightarrow> map_option ((#) c) (head_append_list style_tag cs))"


section \<open>\<open>get_blog_title\<close>\<close>

text \<open>A tag is always true in a condition, so \<open>if title:\<close> asks whether one was found.\<close>

definition get_blog_title :: "element \<Rightarrow> string" where
  "get_blog_title soup =
     (case find_tag ''h1'' soup of
        Some title \<Rightarrow> strip (get_text title)
      | None \<Rightarrow>
     (case find_tag ''title'' soup of
        Some title \<Rightarrow> strip (get_text title)
      | None \<Rightarrow>
     (case find_tag ''h2'' soup of
        Some title \<Rightarrow> strip (get_text title)
      | None \<Rightarrow>
     (case find_tag ''h3'' soup of
        Some title \<Rightarrow> strip (get_text title)
      | None \<Rightarrow> ''untitled''))))"


section \<open>\<open>clean_html_for_pdf\<close>\<close>

definition style_css :: string where
  "style_css =
     [CHR 0x0A] @ ''        body { padding: 20px; }'' @
     [CHR 0x0A] @ ''        .post-content { position: relative; z-index: 1; }'' @
     [CHR 0x0A] @ ''        h1, h2, h3 { break-after: avoid; }'' @
     [CHR 0x0A] @ ''        pre, code { break-inside: avoid; }'' @
     [CHR 0x0A] @ ''    ''"

definition class_denylist :: "string list" where
  "class_denylist =
     [''site-header'', ''site-nav'', ''page-header'', ''site-title'',
      ''site-description'', ''trigger'', ''page-link'']"

definition clean_html_for_pdf :: "element \<Rightarrow> element" where
  "clean_html_for_pdf soup =
     (let soup = decompose_all (\<lambda>e. tag_name e \<in> set [''header'', ''nav'']) soup;
          soup = foldl (\<lambda>s class_name. decompose_all (has_class class_name) s) soup class_denylist;
          soup = decompose_all (\<lambda>e. tag_name e = ''footer'') soup;
          style_tag = Tag ''style'' [] [NavigableString Plain style_css]
      in case head_append style_tag soup of Some soup' \<Rightarrow> soup' | None \<Rightarrow> soup)"


section \<open>The environment of a run\<close>

text \<open>
  An exception is represented by its message, \<open>str(e)\<close>; the handlers of the script catch
  \<open>Exception\<close> and look at nothing else.
\<close>

datatype exn = Exception (message: string)

text \<open>
  What the script reads of a \<open>requests\<close> response: its text, and what
  \<open>raise_for_status()\<close> does (\<open>Some m\<close>: it raises an error with message \<open>m\<close>).
\<close>

record response =
  response_text :: string
  http_error :: "string option"

text \<open>
  The collaborators of the script, none of which is part of the repository: the HTTP client,
  the HTML parser and serialiser, the URL functions of the standard library, the PDF renderer
  and the file system's refusals. A run sees one fixed environment.
  \<^item> \<open>requests_get url\<close> is \<open>requests.get(url)\<close>, which returns a response or raises;
  \<^item> \<open>parse_html text\<close> is \<open>BeautifulSoup(text, 'html.parser')\<close>;
  \<^item> \<open>soup_str soup\<close> is \<open>str(soup)\<close>;
  \<^item> \<open>urljoin base href\<close> and \<open>urlparse_path url\<close> are \<open>urllib.parse.urljoin\<close> and
    \<open>urlparse(url).path\<close>;
  \<^item> \<open>weasyprint_available\<close> is the flag \<open>WEASYPRINT_AVAILABLE\<close> set at import;
  \<^item> \<open>render_pdf html base_url\<close> is the rendering done by
    \<open>HTML(string=html, base_url=base_url).write_pdf\<close>: the bytes of the PDF, or an error;
  \<^item> \<open>exists_error name\<close> is the error, if any, that \<open>Path.exists\<close> raises for a file name;
  \<^item> \<open>open_error name\<close> is the error, if any, of opening a file of that name for writing.
\<close>

record env =
  requests_get :: "string \<Rightarrow> exn + response"
  parse_html :: "string \<Rightarrow> exn + element"
  soup_str :: "element \<Rightarrow> string"
  urljoin :: "string \<Rightarrow> string \<Rightarrow> string"
  urlparse_path :: "string \<Rightarrow> string"
  weasyprint_available :: bool
  render_pdf :: "string \<Rightarrow> string \<Rightarrow> exn + string"
  exists_error :: "string \<Rightarrow> string option"
  open_error :: "string \<Rightarrow> string option"

text \<open>
  What a run changes: the files of the output directory (file name to contents), the
  requests sent to the server, and the documents handed to the renderer (by base URL).
  A write that fails leaves no file: the renderer writes the PDF only once the rendering
  has succeeded.
\<close>

record world =
  files :: "string \<rightharpoonup> string"
  http_log :: "string list"
  render_log :: "string list"

text \<open>\<open>requests.get(url)\<close> followed by \<open>response.raise_for_status()\<close>.\<close>

definition fetch :: "env \<Rightarrow> string \<Rightarrow> world \<Rightarrow> (exn + response) \<times> world" where
  "fetch e url w =
     (let w = w\<lparr>http_log := http_log w @ [url]\<rparr>
      in case requests_get e url of
           Inl ex \<Rightarrow> (Inl ex, w)
         | Inr response \<Rightarrow>
             (case http_error response of
                Some m \<Rightarrow> (Inl (Exception m), w)
              | None \<Rightarrow> (Inr response, w)))"

text \<open>Writing a file: it fails and changes nothing, or the file has the new contents.\<close>

definition write_file :: "env \<Rightarrow> string \<Rightarrow> string \<Rightarrow> world \<Rightarrow> (exn + unit) \<times> world" where
  "write_file e path data w =
     (case open_error e path of
        Some m \<Rightarrow> (Inl (Exception m), w)
      | None \<Rightarrow> (Inr (), w\<lparr>files := (files w)(path \<mapsto> data)\<rparr>))"

text \<open>\<open>HTML(string=html, base_url=url).write_pdf(pdf_path)\<close>.\<close>

definition write_pdf :: "env \<Rightarrow> string \<Rightarrow> string \<Rightarrow> string \<Rightarrow> world \<Rightarrow> (exn + unit) \<times> world" where
  "write_pdf e html url pdf_path w =
     (let w = w\<lparr>render_log := render_log w @ [url]\<rparr>
      in case render_pdf e html url of
           Inl ex \<Rightarrow> (Inl ex, w)
         | Inr pdf \<Rightarrow> write_file e pdf_path pdf w)"


section \<open>\<open>get_blog_posts\<close>\<close>

text \<open>The loop of lines 43 to 59 over the anchor targets, \<open>blog_links\<close> being the list it fills.\<close>

fun collect_links :: "(string \<Rightarrow> string \<Rightarrow> string) \<Rightarrow> string \<Rightarrow> string list \<Rightarrow> string list \<Rightarrow> string list" where
  "collect_links uj base_url blog_links [] = blog_links"
| "collect_links uj base_url blog_links (href # hrefs) =
     (if href = [] \<or> startswith href ''#'' \<or> startswith href ''http'' \<or> href = ''/''
      then collect_links uj base_url blog_links hrefs
      else
        (let full_url = uj base_url href
         in if startswith full_url base_url \<and> full_url \<noteq> base_url \<and> endswith full_url ''.html''
            then collect_links uj base_url (blog_links @ [full_url]) hrefs
            else collect_links uj base_url blog_links hrefs))"

text \<open>
  \<open>sorted(list(set(blog_links)))\<close>: whatever order the set is listed in, sorting it gives
  the one sorted list of its elements.
\<close>

definition get_blog_posts :: "env \<Rightarrow> string \<Rightarrow> world \<Rightarrow> (exn + string list) \<times> world" where
  "get_blog_posts e base_url w =
     (case fetch e base_url w of
        (Inl ex, w) \<Rightarrow> (Inl ex, w)
      | (Inr response, w) \<Rightarrow>
          (case parse_html e (response_text response) of
             Inl ex \<Rightarrow> (Inl ex, w)
           | Inr soup \<Rightarrow>
               (let blog_links = collect_links (urljoin e) base_url [] (anchor_hrefs soup);
                    blog_links = sorted_list_of_set (set blog_links)
                in (Inr blog_links, w))))"


section \<open>\<open>download_and_convert_to_pdf\<close>\<close>

datatype outcome = Success | Existing | Error

text \<open>
  The function returns \<open>'success'\<close>, \<open>'existing'\<close> or \<open>'error'\<close>, or raises; it appends to
  the list \<open>failed_urls\<close> of its caller and writes into the output directory.
\<close>

definition download_and_convert_to_pdf ::
  "env \<Rightarrow> string \<Rightarrow> world \<Rightarrow> (string \<times> string) list
     \<Rightarrow> (exn + outcome) \<times> world \<times> (string \<times> string) list" where
  "download_and_convert_to_pdf e url w failed_urls =
     (case fetch e url w of
        (Inl ex, w) \<Rightarrow> (Inl ex, w, failed_urls)
      | (Inr response, w) \<Rightarrow>
     (case parse_html e (response_text response) of
        Inl ex \<Rightarrow> (Inl ex, w, failed_urls)
      | Inr soup \<Rightarrow>
     (let title = get_blog_title soup;
          filename = post_filename (urlparse_path e) title url;
          pdf_path = filename @ ''.pdf''
      in case exists_error e pdf_path of
           Some m \<Rightarrow> (Inl (Exception m), w, failed_urls)
         | None \<Rightarrow>
        if files w pdf_path \<noteq> None then (Inr Existing, w, failed_urls)
        else if \<not> weasyprint_available e then
          (Inr Error, w, failed_urls @ [(url, ''weasyprint not installed'')])
        else
          (let cleaned_soup = clean_html_for_pdf soup;
               cleaned_html = soup_str e cleaned_soup
           in case write_pdf e cleaned_html url pdf_path w of
                (Inr _, w) \<Rightarrow> (Inr Success, w, failed_urls)
              | (Inl ex, w) \<Rightarrow>
                  (let error_msg = message ex;
                       failed_urls = failed_urls @ [(url, error_msg)];
                       html_backup_path = filename @ ''.html''
                   in case write_file e html_backup_path (response_text response) w of
                        (Inr _, w) \<Rightarrow> (Inr Error, w, failed_urls)
                      | (Inl backup_error, w) \<Rightarrow> (Inr Error, w, failed_urls))))))"


section \<open>\<open>main\<close>\<close>

record tally =
  new_count :: nat
  existing_count :: nat
  error_count :: nat
  failed_urls :: "(string \<times> string) list"
  world :: world

text \<open>The body of the loop of lines 237 to 254, for one URL.\<close>

definition process_url :: "env \<Rightarrow> tally \<Rightarrow> string \<Rightarrow> tally" where
  "process_url e t url =
     (case download_and_convert_to_pdf e url (world t) (failed_urls t) of
        (Inr result, w, failed) \<Rightarrow>
          (let t = t\<lparr>world := w, failed_urls := failed\<rparr>
           in if result = Success then t\<lparr>new_count := new_count t + 1\<rparr>
              else if result = Existing then t\<lparr>existing_count := existing_count t + 1\<rparr>
              else t\<lparr>error_count := error_count t + 1\<rparr>)
      | (Inl ex, w, failed) \<Rightarrow>
          t\<lparr>world := w, error_count := error_count t + 1,
            failed_urls := failed @ [(url, message ex)]\<rparr>)"

text \<open>The loop over \<open>blog_urls\<close>, from the counters set up in lines 232 to 235.\<close>

definition process_urls :: "env \<Rightarrow> tally \<Rightarrow> string list \<Rightarrow> tally" where
  "process_urls e t blog_urls = foldl (process_url e) t blog_urls"

text \<open>
  What the calls of \<open>download_and_convert_to_pdf\<close> made by the loop give, one for each URL
  in order: the value returned, or the exception raised.
\<close>

fun outcomes :: "env \<Rightarrow> tally \<Rightarrow> string list \<Rightarrow> (exn + outcome) list" where
  "outcomes e t [] = []"
| "outcomes e t (url # blog_urls) =
     fst (download_and_convert_to_pdf e url (world t) (failed_urls t))
       # outcomes e (process_url e t url) blog_urls"

definition start_tally :: "world \<Rightarrow> tally" where
  "start_tally w =
     \<lparr>new_count = 0, existing_count = 0, error_count = 0, failed_urls = [], world = w\<rparr>"

datatype run = Fatal exn world | No_posts world | Summary tally

definition base_url :: string where
  "base_url = ''https://geohot.github.io/blog/''"

definition main :: "env \<Rightarrow> world \<Rightarrow> run" where
  "main e w =
     (case get_blog_posts e base_url w of
        (Inl ex, w) \<Rightarrow> Fatal ex w
      | (Inr blog_urls, w) \<Rightarrow>
          if blog_urls = [] then No_posts w
          else Summary (process_urls e (start_tally w) blog_urls))"


section \<open>A small site to run the script on\<close>

text \<open>
  An index page with the six anchors of the discovery example, and four posts: the first
  renders, the second cannot be fetched, the third makes the renderer fail, the fourth
  renders and has a script inside its heading. Every other URL answers 404.
\<close>

definition demo_index_text :: string where
  "demo_index_text =
     ''<html><body><a href=#x>top</a><a href=https://ext/a.html>ext</a>'' @
     ''<a href=/>home</a><a href=/blog/p1.html>one</a><a href=/blog/p1.html>again</a>'' @
     ''<a href=/blog/p2.txt>two</a></body></html>''"

definition demo_index :: element where
  "demo_index =
     Tag ''[document]'' []
       [Tag ''html'' []
          [Tag ''body'' []
             [Tag ''a'' [(''href'', ''#x'')] [NavigableString Plain ''top''],
              Tag ''a'' [(''href'', ''https://ext/a.html'')] [NavigableString Plain ''ext''],
              Tag ''a'' [(''href'', ''/'')] [NavigableString Plain ''home''],
              Tag ''a'' [(''href'', ''/blog/p1.html'')] [NavigableString Plain ''one''],
              Tag ''a'' [(''href'', ''/blog/p1.html'')] [NavigableString Plain ''again''],
              Tag ''a'' [(''href'', ''/blog/p2.txt'')] [NavigableString Plain ''two'']]]]"

definition url_first :: string where
  "url_first = ''https://site/blog/2024/03/07/first.html''"

definition url_second :: string where
  "url_second = ''https://site/blog/2024/03/08/second.html''"

definition url_third :: string where
  "url_third = ''https://site/blog/posts/third.html''"

definition text_first :: string where
  "text_first =
     ''<html><head><title>First</title></head><body><header>Site</header>'' @
     ''<h1> A/B: Test? </h1><p>Hello</p><footer>Bye</footer></body></html>''"

definition soup_first :: element where
  "soup_first =
     Tag ''[document]'' []
       [Tag ''html'' []
          [Tag ''head'' [] [Tag ''title'' [] [NavigableString Plain ''First'']],
           Tag ''body'' []
             [Tag ''header'' [] [NavigableString Plain ''Site''],
              Tag ''h1'' [] [NavigableString Plain '' A/B: Test? ''],
              Tag ''p'' [] [NavigableString Plain ''Hello''],
              Tag ''footer'' [] [NavigableString Plain ''Bye'']]]]"

definition text_third :: string where
  "text_third =
     ''<html><head><title>Third post</title></head><body>'' @
     ''<div class=trigger>Menu</div><h2>Sub heading</h2><p>Text</p></body></html>''"

definition soup_third :: element where
  "soup_third =
     Tag ''[document]'' []
       [Tag ''html'' []
          [Tag ''head'' [] [Tag ''title'' [] [NavigableString Plain ''Third post'']],
           Tag ''body'' []
             [Tag ''div'' [(''class'', ''trigger'')] [NavigableString Plain ''Menu''],
              Tag ''h2'' [] [NavigableString Plain ''Sub heading''],
              Tag ''p'' [] [NavigableString Plain ''Text'']]]]"

definition url_fourth :: string where
  "url_fourth = ''https://site/blog/2024/03/09/fourth.html''"

definition text_fourth :: string where
  "text_fourth = ''<html><body><h1>Hi<script>x()</script></h1><p>More</p></body></html>''"

definition soup_fourth :: element where
  "soup_fourth =
     Tag ''[document]'' []
       [Tag ''html'' []
          [Tag ''body'' []
             [Tag ''h1'' []
                [NavigableString Plain ''Hi'',
                 Tag ''script'' [] [NavigableString Script ''x()'']],
              Tag ''p'' [] [NavigableString Plain ''More'']]]]"

text \<open>A serialiser, and the two URL functions on the URLs of this site.\<close>

fun demo_str :: "element \<Rightarrow> string" where
  "demo_str (NavigableString c s) = s"
| "demo_str (Tag n a cs) =
     (if n = ''[document]'' then concat (map demo_str cs)
      else ''<'' @ n @ concat (map (\<lambda>(k, v). '' '' @ k @ ''='' @ v) a) @ ''>''
           @ concat (map demo_str cs) @ ''</'' @ n @ ''>'')"

definition demo_urljoin :: "string \<Rightarrow> string \<Rightarrow> string" where
  "demo_urljoin base href =
     (if startswith href ''/'' then ''https://site'' @ href else base @ href)"

definition demo_path :: "string \<Rightarrow> string" where
  "demo_path url = drop (length ''https://site'') url"

definition demo_env :: env where
  "demo_env =
     \<lparr>requests_get = (\<lambda>url.
        if url = ''https://site/blog/'' then
          Inr \<lparr>response_text = demo_index_text, http_error = None\<rparr>
        else if url = url_first then Inr \<lparr>response_text = text_first, http_error = None\<rparr>
        else if url = url_second then Inl (Exception ''connection refused'')
        else if url = url_third then Inr \<lparr>response_text = text_third, http_error = None\<rparr>
        else if url = url_fourth then Inr \<lparr>response_text = text_fourth, http_error = None\<rparr>
        else Inr \<lparr>response_text = ''not found'', http_error = Some ''404 Client Error''\<rparr>),
      parse_html = (\<lambda>t.
        if t = demo_index_text then Inr demo_index
        else if t = text_first then Inr soup_first
        else if t = text_third then Inr soup_third
        else if t = text_fourth then Inr soup_fourth
        else Inl (Exception ''no markup'')),
      soup_str = demo_str,
      urljoin = demo_urljoin,
      urlparse_path = demo_path,
      weasyprint_available = True,
      render_pdf = (\<lambda>html url.
        if url = url_third then Inl (Exception ''render failed'') else Inr (''%PDF '' @ html)),
      exists_error = (\<lambda>name. None),
      open_error = (\<lambda>name. None)\<rparr>"

definition demo_world :: world where
  "demo_world = \<lparr>files = Map.empty, http_log = [], render_log = []\<rparr>"


section \<open>Properties of the string functions\<close>

lemma sanitize_filename_eq:
  "sanitize_filename title =
     take 200 (map (\<lambda>c. if c = CHR '' '' then CHR ''_'' else c)
                 (filter (\<lambda>c. c \<notin> set invalid_chars) title))"
  by (simp add: sanitize_filename_def re_sub_invalid_def replace_char_def)

lemma underscore_valid: "CHR ''_'' \<notin> set invalid_chars"
  by (simp add: invalid_chars_def)

lemma sanitize_filename_chars:
  "c \<in> set (sanitize_filename title) \<Longrightarrow> c \<notin> set invalid_chars \<and> c \<noteq> CHR '' ''"
  by (auto simp: sanitize_filename_eq underscore_valid dest!: in_set_takeD split: if_splits)

lemma sanitize_filename_length: "length (sanitize_filename title) \<le> 200"
  by (simp add: sanitize_filename_eq)

lemma sanitize_filename_example: "sanitize_filename ''A/B: Test?'' = ''AB_Test''"
  by (simp add: sanitize_filename_eq invalid_chars_def)

text \<open>
  C4. \<open>sanitize_filename\<close> deletes every character of the class \<open>< > : " / \ | ? *\<close>,
  turns every space into an underscore and keeps at most the first 200 characters of what
  is left; the title \<open>A/B: Test?\<close> becomes \<open>AB_Test\<close>.
\<close>

theorem sanitize_filename_spec:
  "sanitize_filename title =
     take 200 (map (\<lambda>c. if c = CHR '' '' then CHR ''_'' else c)
                 (filter (\<lambda>c. c \<notin> set invalid_chars) title))
   \<and> (\<forall>c \<in> set (sanitize_filename title). c \<notin> set invalid_chars \<and> c \<noteq> CHR '' '')
   \<and> length (sanitize_filename title) \<le> 200
   \<and> set invalid_chars =
       {CHR ''<'', CHR ''>'', CHR '':'', CHR 0x22, CHR ''/'', CHR 0x5C, CHR ''|'', CHR ''?'', CHR ''*''}
   \<and> sanitize_filename ''A/B: Test?'' = ''AB_Test''"
proof -
  have "set invalid_chars =
       {CHR ''<'', CHR ''>'', CHR '':'', CHR 0x22, CHR ''/'', CHR 0x5C, CHR ''|'', CHR ''?'', CHR ''*''}"
    by (simp add: invalid_chars_def)
  with sanitize_filename_eq [of title] sanitize_filename_chars [of _ title]
    sanitize_filename_length [of title] sanitize_filename_example
  show ?thesis by blast
qed

theorem sanitize_filename_spec_witness:
  "CHR ''_'' \<in> set (sanitize_filename ''a b'') \<and> CHR ''_'' \<notin> set invalid_chars
   \<and> sanitize_filename ''a b'' = ''a_b''"
  using sanitize_filename_spec [of "''a b''"]
  by (simp add: invalid_chars_def)


section \<open>Properties of the date search\<close>

lemma match_date_append:
  "12 \<le> length s \<Longrightarrow> match_date (s @ t) = match_date s"
  by (auto simp: match_date_def nth_append)

lemma match_date_SomeD:
  assumes "match_date s = Some (y, m, d)"
  shows "\<exists>post. s = ''/'' @ y @ ''/'' @ m @ ''/'' @ d @ ''/'' @ post
           \<and> length y = 4 \<and> length m = 2 \<and> length d = 2 \<and> list_all is_digit (y @ m @ d)"
proof -
  from assms have len: "12 \<le> length s"
    by (simp add: match_date_def Let_def split: if_splits)
  then obtain c0 c1 c2 c3 c4 c5 c6 c7 c8 c9 c10 c11 post
    where s: "s = c0 # c1 # c2 # c3 # c4 # c5 # c6 # c7 # c8 # c9 # c10 # c11 # post"
    by (auto simp: numeral_eq_Suc Suc_le_length_iff)
  from assms show ?thesis
    unfolding s by (auto simp: match_date_def Let_def numeral_eq_Suc split: if_splits)
qed

lemma match_date_SomeI:
  assumes "length y = 4" "length m = 2" "length d = 2" "list_all is_digit (y @ m @ d)"
  shows "match_date (''/'' @ y @ ''/'' @ m @ ''/'' @ d @ ''/'' @ post) = Some (y, m, d)"
proof -
  from assms(1) obtain y1 y2 y3 y4 where y: "y = [y1, y2, y3, y4]"
    by (auto simp: numeral_eq_Suc length_Suc_conv)
  from assms(2) obtain m1 m2 where m: "m = [m1, m2]"
    by (auto simp: numeral_eq_Suc length_Suc_conv)
  from assms(3) obtain d1 d2 where d: "d = [d1, d2]"
    by (auto simp: numeral_eq_Suc length_Suc_conv)
  from assms(4) show ?thesis
    unfolding y m d by (simp add: match_date_def Let_def numeral_eq_Suc)
qed

lemma re_search_date_SomeD:
  "re_search_date url = Some g \<Longrightarrow> \<exists>pre s. url = pre @ s \<and> match_date s = Some g"
proof (induction url)
  case Nil
  then show ?case by simp
next
  case (Cons c cs)
  show ?case
  proof (cases "match_date (c # cs)")
    case None
    with Cons.prems have "re_search_date cs = Some g" by simp
    from Cons.IH [OF this] obtain pre s where "cs = pre @ s" "match_date s = Some g"
      by blast
    then have "c # cs = (c # pre) @ s \<and> match_date s = Some g" by simp
    then show ?thesis by blast
  next
    case (Some a)
    with Cons.prems have "c # cs = [] @ (c # cs) \<and> match_date (c # cs) = Some g" by simp
    then show ?thesis by blast
  qed
qed

lemma re_search_date_found:
  "match_date s \<noteq> None \<Longrightarrow> re_search_date (pre @ s) \<noteq> None"
proof (induction pre)
  case Nil
  then show ?case by (cases s) (auto simp: match_date_def)
next
  case (Cons c pre)
  then show ?case by (simp split: option.splits)
qed

lemma extract_date_SomeD:
  assumes "extract_date_from_url url = Some date"
  shows "\<exists>pre y m d post. url = pre @ ''/'' @ y @ ''/'' @ m @ ''/'' @ d @ ''/'' @ post
           \<and> length y = 4 \<and> length m = 2 \<and> length d = 2 \<and> list_all is_digit (y @ m @ d)
           \<and> date = y @ ''-'' @ m @ ''-'' @ d"
proof -
  from assms obtain y m d where g: "re_search_date url = Some (y, m, d)"
    and date: "date = y @ ''-'' @ m @ ''-'' @ d"
    by (auto simp: extract_date_from_url_def split: option.splits)
  from re_search_date_SomeD [OF g] obtain pre s where "url = pre @ s" "match_date s = Some (y, m, d)"
    by blast
  with match_date_SomeD [of s y m d] date show ?thesis by blast
qed

lemma extract_date_found:
  assumes "length y = 4" "length m = 2" "length d = 2" "list_all is_digit (y @ m @ d)"
  shows "extract_date_from_url (pre @ ''/'' @ y @ ''/'' @ m @ ''/'' @ d @ ''/'' @ post) \<noteq> None"
proof -
  have "re_search_date (pre @ (''/'' @ y @ ''/'' @ m @ ''/'' @ d @ ''/'' @ post)) \<noteq> None"
    by (rule re_search_date_found) (simp only: match_date_SomeI [OF assms] option.distinct not_False_eq_True)
  then show ?thesis
    by (auto simp: extract_date_from_url_def split: option.splits)
qed

lemma extract_date_nonempty: "extract_date_from_url url \<noteq> Some []"
  by (auto simp: extract_date_from_url_def split: option.splits)

lemma post_filename_dated:
  "extract_date_from_url url = Some date \<Longrightarrow>
     post_filename up title url = date @ ''_'' @ base_filename up title url"
  using extract_date_nonempty [of url] by (auto simp: post_filename_def)

lemma post_filename_undated:
  "extract_date_from_url url = None \<Longrightarrow> post_filename up title url = base_filename up title url"
  by (simp add: post_filename_def)

lemma extract_date_example_dated:
  "extract_date_from_url ''https://geohot.github.io/blog/jekyll/update/2024/03/07/my-post.html''
     = Some ''2024-03-07''"
  by (simp add: extract_date_from_url_def match_date_def is_digit_def)

lemma extract_date_example_undated:
  "extract_date_from_url ''https://geohot.github.io/blog/posts/my-post.html'' = None"
  by (simp add: extract_date_from_url_def match_date_def is_digit_def)


lemma short_list:
  assumes "length (s::char list) < 11" "s \<noteq> []"
  shows "(\<exists>a. s = [a]) \<or> (\<exists>a b. s = [a,b]) \<or> (\<exists>a b c. s = [a,b,c]) \<or> (\<exists>a b c d. s = [a,b,c,d])
    \<or> (\<exists>a b c d e. s = [a,b,c,d,e]) \<or> (\<exists>a b c d e f. s = [a,b,c,d,e,f])
    \<or> (\<exists>a b c d e f g. s = [a,b,c,d,e,f,g]) \<or> (\<exists>a b c d e f g h. s = [a,b,c,d,e,f,g,h])
    \<or> (\<exists>a b c d e f g h i. s = [a,b,c,d,e,f,g,h,i]) \<or> (\<exists>a b c d e f g h i j. s = [a,b,c,d,e,f,g,h,i,j])"
proof -
  from assms have "length s \<noteq> 0" by simp
  with assms(1) have "length s = 1 \<or> length s = 2 \<or> length s = 3 \<or> length s = 4 \<or> length s = 5
      \<or> length s = 6 \<or> length s = 7 \<or> length s = 8 \<or> length s = 9 \<or> length s = 10"
    by arith
  then show ?thesis
    by (elim disjE) (auto simp: numeral_eq_Suc length_Suc_conv)
qed

lemma straddle_dated:
  assumes "match_date (s @ ''/'') = None" "s \<noteq> []"
  shows "match_date (s @ ''/2024/03/07/my-post.html'') = None"
proof (cases "11 \<le> length s")
  case True
  then have "match_date ((s @ ''/'') @ ''2024/03/07/my-post.html'') = match_date (s @ ''/'')"
    by (intro match_date_append) simp
  with assms show ?thesis by simp
next
  case False
  then have "length s < 11" by simp
  from short_list [OF this assms(2)] show ?thesis
    by (elim disjE exE) (simp_all add: match_date_def is_digit_def)
qed

lemma straddle_undated:
  assumes "match_date (s @ ''/'') = None" "s \<noteq> []"
  shows "match_date (s @ ''/posts/my-post.html'') = None"
proof (cases "11 \<le> length s")
  case True
  then have "match_date ((s @ ''/'') @ ''posts/my-post.html'') = match_date (s @ ''/'')"
    by (intro match_date_append) simp
  with assms show ?thesis by simp
next
  case False
  then have "length s < 11" by simp
  from short_list [OF this assms(2)] show ?thesis
    by (elim disjE exE) (simp_all add: match_date_def is_digit_def)
qed

lemma re_search_date_dated:
  "re_search_date (pre @ ''/'') = None \<Longrightarrow>
     re_search_date (pre @ ''/2024/03/07/my-post.html'') = Some (''2024'', ''03'', ''07'')"
proof (induction pre)
  case Nil
  then show ?case by (simp add: match_date_def is_digit_def)
next
  case (Cons c pre)
  from Cons.prems have m: "match_date ((c # pre) @ ''/'') = None" and r: "re_search_date (pre @ ''/'') = None"
    by (simp_all split: option.splits)
  from straddle_dated [OF m] have "match_date (c # pre @ ''/2024/03/07/my-post.html'') = None" by simp
  with Cons.IH [OF r] show ?case by simp
qed

lemma re_search_date_undated:
  "re_search_date (pre @ ''/'') = None \<Longrightarrow> re_search_date (pre @ ''/posts/my-post.html'') = None"
proof (induction pre)
  case Nil
  then show ?case by (simp add: match_date_def is_digit_def)
next
  case (Cons c pre)
  from Cons.prems have m: "match_date ((c # pre) @ ''/'') = None" and r: "re_search_date (pre @ ''/'') = None"
    by (simp_all split: option.splits)
  from straddle_undated [OF m] have "match_date (c # pre @ ''/posts/my-post.html'') = None" by simp
  with Cons.IH [OF r] show ?case by simp
qed


lemma extract_date_dated:
  "extract_date_from_url (p @ ''/'') = None \<Longrightarrow>
     extract_date_from_url (p @ ''/2024/03/07/my-post.html'') = Some ''2024-03-07''"
  using re_search_date_dated [of p]
  by (auto simp: extract_date_from_url_def split: option.splits)

lemma extract_date_undated:
  "extract_date_from_url (p @ ''/'') = None \<Longrightarrow>
     extract_date_from_url (p @ ''/posts/my-post.html'') = None"
  using re_search_date_undated [of p]
  by (auto simp: extract_date_from_url_def split: option.splits)

text \<open>
  C5. If \<open>extract_date_from_url\<close> returns a date, the URL has a segment \<open>/YYYY/MM/DD/\<close> of
  four, two and two digits, the date is \<open>YYYY-MM-DD\<close>, and the file name is that date, an
  underscore and the name derived from the title. If it returns nothing, the URL has no such
  segment and the file name has no prefix. A URL that ends in \<open>/2024/03/07/my-post.html\<close>
  after a part without a date gives \<open>2024-03-07\<close>; one that ends in \<open>/posts/my-post.html\<close>
  after such a part gives no date.
\<close>

theorem date_prefix_spec:
  "(\<forall>date. extract_date_from_url url = Some date \<longrightarrow>
      (\<exists>pre y m d post.
          url = pre @ ''/'' @ y @ ''/'' @ m @ ''/'' @ d @ ''/'' @ post
          \<and> length y = 4 \<and> length m = 2 \<and> length d = 2 \<and> list_all is_digit (y @ m @ d)
          \<and> date = y @ ''-'' @ m @ ''-'' @ d)
      \<and> post_filename up title url = date @ ''_'' @ base_filename up title url)
   \<and> (extract_date_from_url url = None \<longrightarrow>
      (\<forall>pre y m d post.
          length y = 4 \<and> length m = 2 \<and> length d = 2 \<and> list_all is_digit (y @ m @ d)
          \<longrightarrow> url \<noteq> pre @ ''/'' @ y @ ''/'' @ m @ ''/'' @ d @ ''/'' @ post)
      \<and> post_filename up title url = base_filename up title url)
   \<and> (extract_date_from_url (p @ ''/'') = None \<longrightarrow>
        extract_date_from_url (p @ ''/2024/03/07/my-post.html'') = Some ''2024-03-07'')
   \<and> (extract_date_from_url (p @ ''/'') = None \<longrightarrow>
        extract_date_from_url (p @ ''/posts/my-post.html'') = None)"
proof (intro conjI allI impI)
  fix date assume "extract_date_from_url url = Some date"
  then show "\<exists>pre y m d post.
          url = pre @ ''/'' @ y @ ''/'' @ m @ ''/'' @ d @ ''/'' @ post
          \<and> length y = 4 \<and> length m = 2 \<and> length d = 2 \<and> list_all is_digit (y @ m @ d)
          \<and> date = y @ ''-'' @ m @ ''-'' @ d"
    by (rule extract_date_SomeD)
next
  fix date assume "extract_date_from_url url = Some date"
  then show "post_filename up title url = date @ ''_'' @ base_filename up title url"
    by (rule post_filename_dated)
next
  fix pre y m d post
  assume none: "extract_date_from_url url = None"
    and seg: "length y = 4 \<and> length m = 2 \<and> length d = 2 \<and> list_all is_digit (y @ m @ d)"
  show "url \<noteq> pre @ ''/'' @ y @ ''/'' @ m @ ''/'' @ d @ ''/'' @ post"
  proof
    assume "url = pre @ ''/'' @ y @ ''/'' @ m @ ''/'' @ d @ ''/'' @ post"
    with seg extract_date_found [of y m d pre post] have "extract_date_from_url url \<noteq> None"
      by blast
    with none show False by contradiction
  qed
next
  assume "extract_date_from_url url = None"
  then show "post_filename up title url = base_filename up title url"
    by (rule post_filename_undated)
next
  assume "extract_date_from_url (p @ ''/'') = None"
  then show "extract_date_from_url (p @ ''/2024/03/07/my-post.html'') = Some ''2024-03-07''"
    by (rule extract_date_dated)
next
  assume "extract_date_from_url (p @ ''/'') = None"
  then show "extract_date_from_url (p @ ''/posts/my-post.html'') = None"
    by (rule extract_date_undated)
qed

theorem date_prefix_spec_witness:
  "extract_date_from_url url_first = Some ''2024-03-07''
   \<and> post_filename demo_path ''A/B: Test?'' url_first = ''2024-03-07_AB_Test''
   \<and> extract_date_from_url url_third = None
   \<and> post_filename demo_path ''Third post'' url_third = ''Third_post''
   \<and> extract_date_from_url ''https://geohot.github.io/blog/jekyll/update/'' = None
   \<and> extract_date_from_url ''https://geohot.github.io/blog/jekyll/update/2024/03/07/my-post.html''
       = Some ''2024-03-07''
   \<and> extract_date_from_url ''https://geohot.github.io/blog/posts/my-post.html'' = None"
proof -
  have d1: "extract_date_from_url url_first = Some ''2024-03-07''"
    by (simp add: url_first_def extract_date_from_url_def match_date_def is_digit_def)
  have d3: "extract_date_from_url url_third = None"
    by (simp add: url_third_def extract_date_from_url_def match_date_def is_digit_def)
  have p: "extract_date_from_url (''https://geohot.github.io/blog/jekyll/update'' @ ''/'') = None"
    by (simp add: extract_date_from_url_def match_date_def is_digit_def)
  have q: "extract_date_from_url (''https://geohot.github.io/blog'' @ ''/'') = None"
    by (simp add: extract_date_from_url_def match_date_def is_digit_def)
  have b1: "base_filename demo_path ''A/B: Test?'' url_first = ''AB_Test''"
    by (simp add: base_filename_def sanitize_filename_example isspace_def isspace_char_def
        whitespace_def)
  have b3: "base_filename demo_path ''Third post'' url_third = ''Third_post''"
    by (simp add: base_filename_def sanitize_filename_eq invalid_chars_def isspace_def
        isspace_char_def whitespace_def)
  from date_prefix_spec [of url_first demo_path "''A/B: Test?''"] d1 b1
  have n1: "post_filename demo_path ''A/B: Test?'' url_first = ''2024-03-07_AB_Test''"
    by simp
  from date_prefix_spec [of url_third demo_path "''Third post''"] d3 b3
  have n3: "post_filename demo_path ''Third post'' url_third = ''Third_post''"
    by simp
  from date_prefix_spec [of _ _ _ "''https://geohot.github.io/blog/jekyll/update''"] p
  have e1: "extract_date_from_url
      (''https://geohot.github.io/blog/jekyll/update'' @ ''/2024/03/07/my-post.html'')
       = Some ''2024-03-07''"
    by blast
  from date_prefix_spec [of _ _ _ "''https://geohot.github.io/blog''"] q
  have e2: "extract_date_from_url (''https://geohot.github.io/blog'' @ ''/posts/my-post.html'') = None"
    by blast
  from d1 d3 n1 n3 p e1 e2 show ?thesis by simp
qed


section \<open>Properties of title extraction\<close>

text \<open>
  C6. \<open>get_blog_title\<close> returns the stripped text of the first \<open>h1\<close>; without an \<open>h1\<close>, that
  of the first \<open>title\<close>; without either, that of the first \<open>h2\<close>; without these three, that
  of the first \<open>h3\<close>; and \<open>untitled\<close> when the document has none of the four. The text of
  an element is what \<open>get_text\<close> gives: its ordinary text, without the scripts, style sheets
  and comments inside it.
\<close>

theorem get_blog_title_order:
  "(\<forall>t. find_tag ''h1'' soup = Some t \<longrightarrow> get_blog_title soup = strip (get_text t))
   \<and> (\<forall>t. find_tag ''h1'' soup = None \<and> find_tag ''title'' soup = Some t
        \<longrightarrow> get_blog_title soup = strip (get_text t))
   \<and> (\<forall>t. find_tag ''h1'' soup = None \<and> find_tag ''title'' soup = None
          \<and> find_tag ''h2'' soup = Some t
        \<longrightarrow> get_blog_title soup = strip (get_text t))
   \<and> (\<forall>t. find_tag ''h1'' soup = None \<and> find_tag ''title'' soup = None
          \<and> find_tag ''h2'' soup = None \<and> find_tag ''h3'' soup = Some t
        \<longrightarrow> get_blog_title soup = strip (get_text t))
   \<and> (find_tag ''h1'' soup = None \<and> find_tag ''title'' soup = None
          \<and> find_tag ''h2'' soup = None \<and> find_tag ''h3'' soup = None
        \<longrightarrow> get_blog_title soup = ''untitled'')
   \<and> (\<forall>n t. find_tag n soup = Some t \<longrightarrow>
        (\<exists>before after. descendants soup = before @ t # after \<and> is_tag t \<and> tag_name t = n
           \<and> (\<forall>e \<in> set before. \<not> (is_tag e \<and> tag_name e = n))))
   \<and> (\<forall>n. find_tag n soup = None \<longrightarrow>
        (\<forall>e \<in> set (descendants soup). \<not> (is_tag e \<and> tag_name e = n)))
   \<and> (\<forall>n a cs. n \<in> set [''h1'', ''title'', ''h2'', ''h3''] \<longrightarrow>
        get_text (Tag n a cs) = concat (all_strings [Plain, CData] (Tag n a cs)))"
proof (intro conjI allI impI)
  fix n a cs assume "n \<in> set [''h1'', ''title'', ''h2'', ''h3'']"
  then show "get_text (Tag n a cs) = concat (all_strings [Plain, CData] (Tag n a cs))"
    by (auto simp: interesting_string_types_def)
next
  fix n t assume "find_tag n soup = Some t"
  then obtain ts where f: "filter (\<lambda>e. is_tag e \<and> tag_name e = n) (descendants soup) = t # ts"
    by (auto simp: find_tag_def find_all_def split: list.splits)
  from this [unfolded filter_eq_Cons_iff]
  show "\<exists>before after. descendants soup = before @ t # after \<and> is_tag t \<and> tag_name t = n
           \<and> (\<forall>e \<in> set before. \<not> (is_tag e \<and> tag_name e = n))"
    by blast
next
  fix n assume "find_tag n soup = None"
  then have "filter (\<lambda>e. is_tag e \<and> tag_name e = n) (descendants soup) = []"
    by (auto simp: find_tag_def find_all_def split: list.splits)
  then show "\<forall>e \<in> set (descendants soup). \<not> (is_tag e \<and> tag_name e = n)"
    by (simp add: filter_empty_conv)
qed (simp_all add: get_blog_title_def)

theorem get_blog_title_order_witness:
  "find_tag ''h1'' soup_third = None
   \<and> find_tag ''title'' soup_third = Some (Tag ''title'' [] [NavigableString Plain ''Third post''])
   \<and> find_tag ''h2'' soup_third = Some (Tag ''h2'' [] [NavigableString Plain ''Sub heading''])
   \<and> get_blog_title soup_third = ''Third post''
   \<and> find_tag ''h1'' soup_first = Some (Tag ''h1'' [] [NavigableString Plain '' A/B: Test? ''])
   \<and> get_blog_title soup_first = ''A/B: Test?''
   \<and> find_tag ''h1'' soup_fourth =
        Some (Tag ''h1'' []
               [NavigableString Plain ''Hi'', Tag ''script'' [] [NavigableString Script ''x()'']])
   \<and> get_blog_title soup_fourth = ''Hi''
   \<and> get_blog_title (Tag ''[document]'' [] [Tag ''p'' [] [NavigableString Plain ''x'']]) = ''untitled''"
proof -
  have h1: "find_tag ''h1'' soup_third = None"
    by (simp add: find_tag_def find_all_def soup_third_def)
  have ti: "find_tag ''title'' soup_third = Some (Tag ''title'' [] [NavigableString Plain ''Third post''])"
    by (simp add: find_tag_def find_all_def soup_third_def)
  have h2: "find_tag ''h2'' soup_third = Some (Tag ''h2'' [] [NavigableString Plain ''Sub heading''])"
    by (simp add: find_tag_def find_all_def soup_third_def)
  have f1: "find_tag ''h1'' soup_first = Some (Tag ''h1'' [] [NavigableString Plain '' A/B: Test? ''])"
    by (simp add: find_tag_def find_all_def soup_first_def)
  have f4: "find_tag ''h1'' soup_fourth =
        Some (Tag ''h1'' []
               [NavigableString Plain ''Hi'', Tag ''script'' [] [NavigableString Script ''x()'']])"
    by (simp add: find_tag_def find_all_def soup_fourth_def)
  have s3: "strip (get_text (Tag ''title'' [] [NavigableString Plain ''Third post''])) = ''Third post''"
    by (simp add: strip_def strip_with_def isspace_char_def whitespace_def
        interesting_string_types_def)
  have s1: "strip (get_text (Tag ''h1'' [] [NavigableString Plain '' A/B: Test? ''])) = ''A/B: Test?''"
    by (simp add: strip_def strip_with_def isspace_char_def whitespace_def
        interesting_string_types_def)
  have s4: "strip (get_text (Tag ''h1'' []
               [NavigableString Plain ''Hi'', Tag ''script'' [] [NavigableString Script ''x()'']]))
             = ''Hi''"
    by (simp add: strip_def strip_with_def isspace_char_def whitespace_def
        interesting_string_types_def)
  have none: "\<And>n. find_tag n (Tag ''[document]'' [] [Tag ''p'' [] [NavigableString Plain ''x'']]) =
      (if n = ''p'' then Some (Tag ''p'' [] [NavigableString Plain ''x'']) else None)"
    by (simp add: find_tag_def find_all_def)
  from get_blog_title_order [of soup_third] h1 ti s3
  have t3: "get_blog_title soup_third = ''Third post''" by simp
  from get_blog_title_order [of soup_first] f1 s1
  have t1: "get_blog_title soup_first = ''A/B: Test?''" by simp
  from get_blog_title_order [of soup_fourth] f4 s4
  have t4: "get_blog_title soup_fourth = ''Hi''" by simp
  from get_blog_title_order [of "Tag ''[document]'' [] [Tag ''p'' [] [NavigableString Plain ''x'']]"] none
  have t0: "get_blog_title (Tag ''[document]'' [] [Tag ''p'' [] [NavigableString Plain ''x'']]) = ''untitled''"
    by simp
  from h1 ti h2 f1 f4 t3 t1 t4 t0 show ?thesis by simp
qed


section \<open>Properties of link discovery\<close>

lemma collect_links_eq:
  "collect_links uj b acc hrefs =
     acc @ filter (\<lambda>u. startswith u b \<and> u \<noteq> b \<and> endswith u ''.html'')
            (map (uj b)
              (filter (\<lambda>h. \<not> (h = [] \<or> startswith h ''#'' \<or> startswith h ''http'' \<or> h = ''/'')) hrefs))"
  by (induction hrefs arbitrary: acc) (simp_all add: Let_def)

lemma set_collect_links:
  "set (collect_links uj b [] hrefs) =
     {u. \<exists>href \<in> set hrefs.
           href \<noteq> [] \<and> \<not> startswith href ''#'' \<and> \<not> startswith href ''http'' \<and> href \<noteq> ''/''
           \<and> u = uj b href \<and> startswith u b \<and> u \<noteq> b \<and> endswith u ''.html''}"
  by (auto simp: collect_links_eq)

lemma collect_links_example:
  assumes "uj ''https://site/blog/'' ''/blog/p1.html'' = ''https://site/blog/p1.html''"
    and "uj ''https://site/blog/'' ''/blog/p2.txt'' = ''https://site/blog/p2.txt''"
  shows "collect_links uj ''https://site/blog/'' []
           [''#x'', ''https://ext/a.html'', ''/'', ''/blog/p1.html'', ''/blog/p1.html'', ''/blog/p2.txt'']
         = [''https://site/blog/p1.html'', ''https://site/blog/p1.html'']"
  using assms by (simp add: startswith_def endswith_def suffix_to_prefix Let_def)

lemma get_blog_posts_fetched:
  assumes "fetch e b w = (Inr response, w')" "parse_html e (response_text response) = Inr soup"
  shows "get_blog_posts e b w =
           (Inr (sorted_list_of_set (set (collect_links (urljoin e) b [] (anchor_hrefs soup)))), w')"
  using assms by (simp add: get_blog_posts_def)

lemma fetch_result_world: "fst (fetch e url w1) = fst (fetch e url w2)"
  by (simp add: fetch_def Let_def split: sum.splits option.splits)

lemma get_blog_posts_result_world:
  "fst (get_blog_posts e b w1) = fst (get_blog_posts e b w2)"
  using fetch_result_world [of e b w1 w2]
  by (auto simp: get_blog_posts_def Let_def split: prod.splits sum.splits)

lemma get_blog_posts_strict:
  "get_blog_posts e b w = (Inr us, w') \<Longrightarrow> distinct us \<and> sorted us \<and> sorted_wrt (<) us"
  by (auto simp: get_blog_posts_def Let_def split: prod.splits sum.splits)

lemma demo_fetch_index:
  "fetch demo_env ''https://site/blog/'' demo_world =
     (Inr \<lparr>response_text = demo_index_text, http_error = None\<rparr>,
      demo_world\<lparr>http_log := [''https://site/blog/'']\<rparr>)"
  by (simp add: fetch_def demo_env_def demo_world_def)

lemma demo_index_hrefs:
  "anchor_hrefs demo_index =
     [''#x'', ''https://ext/a.html'', ''/'', ''/blog/p1.html'', ''/blog/p1.html'', ''/blog/p2.txt'']"
  by (simp add: anchor_hrefs_def find_all_def demo_index_def List.map_filter_def)

text \<open>
  C1. When the index page is fetched and parsed, \<open>get_blog_posts\<close> returns the sorted list of
  the set of those URLs \<open>urljoin(base_url, href)\<close> whose anchor target \<open>href\<close> is not empty,
  does not start with \<open>#\<close> or \<open>http\<close> and is not \<open>/\<close>, and which start with the base URL,
  differ from it and end in \<open>.html\<close>. For the six anchor targets of the example and the base
  \<open>https://site/blog/\<close>, with \<open>urljoin\<close> resolving the two absolute paths against the host,
  the result is the one URL \<open>https://site/blog/p1.html\<close>.
\<close>

theorem get_blog_posts_filter:
  "fetch e b w = (Inr response, w') \<and> parse_html e (response_text response) = Inr soup \<longrightarrow>
     get_blog_posts e b w =
       (Inr (sorted_list_of_set
          {u. \<exists>href \<in> set (anchor_hrefs soup).
                href \<noteq> [] \<and> \<not> startswith href ''#'' \<and> \<not> startswith href ''http'' \<and> href \<noteq> ''/''
                \<and> u = urljoin e b href
                \<and> startswith u b \<and> u \<noteq> b \<and> endswith u ''.html''}), w')
     \<and> (b = ''https://site/blog/''
        \<and> anchor_hrefs soup =
            [''#x'', ''https://ext/a.html'', ''/'', ''/blog/p1.html'', ''/blog/p1.html'', ''/blog/p2.txt'']
        \<and> urljoin e b ''/blog/p1.html'' = ''https://site/blog/p1.html''
        \<and> urljoin e b ''/blog/p2.txt'' = ''https://site/blog/p2.txt''
        \<longrightarrow> get_blog_posts e b w = (Inr [''https://site/blog/p1.html''], w'))"
proof (intro impI conjI)
  assume a: "fetch e b w = (Inr response, w') \<and> parse_html e (response_text response) = Inr soup"
  then show "get_blog_posts e b w =
       (Inr (sorted_list_of_set
          {u. \<exists>href \<in> set (anchor_hrefs soup).
                href \<noteq> [] \<and> \<not> startswith href ''#'' \<and> \<not> startswith href ''http'' \<and> href \<noteq> ''/''
                \<and> u = urljoin e b href
                \<and> startswith u b \<and> u \<noteq> b \<and> endswith u ''.html''}), w')"
    by (simp only: get_blog_posts_fetched set_collect_links)
  assume x: "b = ''https://site/blog/''
        \<and> anchor_hrefs soup =
            [''#x'', ''https://ext/a.html'', ''/'', ''/blog/p1.html'', ''/blog/p1.html'', ''/blog/p2.txt'']
        \<and> urljoin e b ''/blog/p1.html'' = ''https://site/blog/p1.html''
        \<and> urljoin e b ''/blog/p2.txt'' = ''https://site/blog/p2.txt''"
  then have b: "b = ''https://site/blog/''"
    and h: "anchor_hrefs soup =
        [''#x'', ''https://ext/a.html'', ''/'', ''/blog/p1.html'', ''/blog/p1.html'', ''/blog/p2.txt'']"
    and u1: "urljoin e ''https://site/blog/'' ''/blog/p1.html'' = ''https://site/blog/p1.html''"
    and u2: "urljoin e ''https://site/blog/'' ''/blog/p2.txt'' = ''https://site/blog/p2.txt''"
    by blast+
  have "collect_links (urljoin e) b [] (anchor_hrefs soup)
      = [''https://site/blog/p1.html'', ''https://site/blog/p1.html'']"
    unfolding b h by (rule collect_links_example [of "urljoin e", OF u1 u2])
  with a show "get_blog_posts e b w = (Inr [''https://site/blog/p1.html''], w')"
    by (simp add: get_blog_posts_fetched)
qed

theorem get_blog_posts_filter_witness:
  "fetch demo_env ''https://site/blog/'' demo_world =
     (Inr \<lparr>response_text = demo_index_text, http_error = None\<rparr>,
      demo_world\<lparr>http_log := [''https://site/blog/'']\<rparr>)
   \<and> parse_html demo_env demo_index_text = Inr demo_index
   \<and> anchor_hrefs demo_index =
       [''#x'', ''https://ext/a.html'', ''/'', ''/blog/p1.html'', ''/blog/p1.html'', ''/blog/p2.txt'']
   \<and> get_blog_posts demo_env ''https://site/blog/'' demo_world =
       (Inr [''https://site/blog/p1.html''], demo_world\<lparr>http_log := [''https://site/blog/'']\<rparr>)"
proof -
  have p: "parse_html demo_env demo_index_text = Inr demo_index"
    by (simp add: demo_env_def)
  have p': "parse_html demo_env
      (response_text \<lparr>response_text = demo_index_text, http_error = None\<rparr>) = Inr demo_index"
    using p by simp
  have u1: "urljoin demo_env ''https://site/blog/'' ''/blog/p1.html'' = ''https://site/blog/p1.html''"
    by (simp add: demo_env_def demo_urljoin_def startswith_def)
  have u2: "urljoin demo_env ''https://site/blog/'' ''/blog/p2.txt'' = ''https://site/blog/p2.txt''"
    by (simp add: demo_env_def demo_urljoin_def startswith_def)
  from get_blog_posts_filter [of demo_env "''https://site/blog/''" demo_world
      "\<lparr>response_text = demo_index_text, http_error = None\<rparr>"
      "demo_world\<lparr>http_log := [''https://site/blog/'']\<rparr>" demo_index]
    demo_fetch_index p'
  have "''https://site/blog/'' = ''https://site/blog/''
        \<and> anchor_hrefs demo_index =
            [''#x'', ''https://ext/a.html'', ''/'', ''/blog/p1.html'', ''/blog/p1.html'', ''/blog/p2.txt'']
        \<and> urljoin demo_env ''https://site/blog/'' ''/blog/p1.html'' = ''https://site/blog/p1.html''
        \<and> urljoin demo_env ''https://site/blog/'' ''/blog/p2.txt'' = ''https://site/blog/p2.txt''
        \<longrightarrow> get_blog_posts demo_env ''https://site/blog/'' demo_world =
              (Inr [''https://site/blog/p1.html''], demo_world\<lparr>http_log := [''https://site/blog/'']\<rparr>)"
    by blast
  with demo_index_hrefs u1 u2
  have "get_blog_posts demo_env ''https://site/blog/'' demo_world =
          (Inr [''https://site/blog/p1.html''], demo_world\<lparr>http_log := [''https://site/blog/'']\<rparr>)"
    by blast
  with demo_fetch_index p demo_index_hrefs show ?thesis by blast
qed

text \<open>
  C8. The list returned by \<open>get_blog_posts\<close> has no duplicates and is sorted in the order of
  strings, strictly so; and the result does not depend on what earlier runs left behind: from
  any two states of the output directory and logs, the same page gives the same list.
\<close>

theorem get_blog_posts_sorted:
  "(\<forall>us w'. get_blog_posts e b w = (Inr us, w') \<longrightarrow> distinct us \<and> sorted us \<and> sorted_wrt (<) us)
   \<and> fst (get_blog_posts e b w) = fst (get_blog_posts e b w2)"
  using get_blog_posts_strict [of e b w] get_blog_posts_result_world [of e b w w2]
  by blast


lemma demo_sort:
  "sorted_list_of_set (set [''https://site/blog/b.html'', ''https://site/blog/a.html'',
       ''https://site/blog/b.html''])
     = [''https://site/blog/a.html'', ''https://site/blog/b.html'']"
  unfolding sorted_list_of_set_sort_remdups
  by (simp add: less_eq_char_def less_char_def)

theorem get_blog_posts_sorted_witness:
  "get_blog_posts
     (demo_env\<lparr>parse_html := \<lambda>t. Inr (Tag ''[document]'' []
        [Tag ''a'' [(''href'', ''/blog/b.html'')] [],
         Tag ''a'' [(''href'', ''/blog/a.html'')] [],
         Tag ''a'' [(''href'', ''/blog/b.html'')] []])\<rparr>)
     ''https://site/blog/'' demo_world
     = (Inr [''https://site/blog/a.html'', ''https://site/blog/b.html''],
        demo_world\<lparr>http_log := [''https://site/blog/'']\<rparr>)
   \<and> distinct [''https://site/blog/a.html'', ''https://site/blog/b.html'']
   \<and> sorted_wrt (<) [''https://site/blog/a.html'', ''https://site/blog/b.html'']"
proof -
  let ?e = "demo_env\<lparr>parse_html := \<lambda>t. Inr (Tag ''[document]'' []
        [Tag ''a'' [(''href'', ''/blog/b.html'')] [],
         Tag ''a'' [(''href'', ''/blog/a.html'')] [],
         Tag ''a'' [(''href'', ''/blog/b.html'')] []])\<rparr>"
  have f: "fetch ?e ''https://site/blog/'' demo_world =
     (Inr \<lparr>response_text = demo_index_text, http_error = None\<rparr>,
      demo_world\<lparr>http_log := [''https://site/blog/'']\<rparr>)"
    by (simp add: fetch_def demo_env_def demo_world_def)
  have c: "collect_links (urljoin demo_env) ''https://site/blog/'' []
      (anchor_hrefs (Tag ''[document]'' []
        [Tag ''a'' [(''href'', ''/blog/b.html'')] [],
         Tag ''a'' [(''href'', ''/blog/a.html'')] [],
         Tag ''a'' [(''href'', ''/blog/b.html'')] []]))
     = [''https://site/blog/b.html'', ''https://site/blog/a.html'', ''https://site/blog/b.html'']"
    by (simp add: anchor_hrefs_def find_all_def List.map_filter_def demo_env_def demo_urljoin_def
        startswith_def endswith_def suffix_to_prefix Let_def)
  have g: "get_blog_posts ?e ''https://site/blog/'' demo_world
     = (Inr [''https://site/blog/a.html'', ''https://site/blog/b.html''],
        demo_world\<lparr>http_log := [''https://site/blog/'']\<rparr>)"
  proof -
    have p: "parse_html ?e (response_text \<lparr>response_text = demo_index_text, http_error = None\<rparr>)
        = Inr (Tag ''[document]'' []
        [Tag ''a'' [(''href'', ''/blog/b.html'')] [],
         Tag ''a'' [(''href'', ''/blog/a.html'')] [],
         Tag ''a'' [(''href'', ''/blog/b.html'')] []])"
      by simp
    have u: "urljoin ?e = urljoin demo_env" by simp
    show ?thesis
      unfolding get_blog_posts_fetched [OF f p] u c demo_sort ..
  qed
  with get_blog_posts_sorted [of ?e "''https://site/blog/''" demo_world] show ?thesis
    by blast
qed


section \<open>Properties of the converter\<close>

lemmas converter_defs =
  download_and_convert_to_pdf_def fetch_def write_pdf_def write_file_def Let_def

lemma fetch_world:
  "fetch e url w = (r, w') \<Longrightarrow> w' = w\<lparr>http_log := http_log w @ [url]\<rparr>"
  by (auto simp: fetch_def Let_def split: sum.splits option.splits)

lemma write_pdf_files:
  "write_pdf e html url path w = (Inl ex, w') \<Longrightarrow>
     w' = w\<lparr>render_log := render_log w @ [url]\<rparr>"
  by (auto simp: write_pdf_def write_file_def Let_def split: sum.splits option.splits)

lemma html_not_pdf: "\<not> endswith (fn @ ''.html'') ''.pdf''"
  by (simp add: endswith_def suffix_to_prefix)

lemma download_existing:
  assumes "fetch e url w = (Inr response, w1)"
    and "parse_html e (response_text response) = Inr soup"
    and "exists_error e (post_filename (urlparse_path e) (get_blog_title soup) url @ ''.pdf'') = None"
    and "files w (post_filename (urlparse_path e) (get_blog_title soup) url @ ''.pdf'') \<noteq> None"
  shows "download_and_convert_to_pdf e url w fu =
           (Inr Existing, w\<lparr>http_log := http_log w @ [url]\<rparr>, fu)"
proof -
  from fetch_world [OF assms(1)] have w1: "w1 = w\<lparr>http_log := http_log w @ [url]\<rparr>" .
  with assms(4)
  have "files w1 (post_filename (urlparse_path e) (get_blog_title soup) url @ ''.pdf'') \<noteq> None"
    by simp
  with assms(1,2,3) w1 show ?thesis
    by (simp add: download_and_convert_to_pdf_def Let_def)
qed

lemma download_files:
  "download_and_convert_to_pdf e url w fu = (r, w', fu') \<Longrightarrow>
     files w' = files w
     \<or> (\<exists>fn pdf. r = Inr Success \<and> files w (fn @ ''.pdf'') = None
           \<and> files w' = (files w)(fn @ ''.pdf'' \<mapsto> pdf))
     \<or> (\<exists>fn txt. r = Inr Error \<and> files w' = (files w)(fn @ ''.html'' \<mapsto> txt))"
  unfolding converter_defs
  by (fastforce split: prod.splits sum.splits option.splits if_splits)

lemma download_keeps_pdf:
  assumes "download_and_convert_to_pdf e url w fu = (r, w', fu')"
    and "endswith p ''.pdf''" and "files w p \<noteq> None"
  shows "files w' p = files w p"
proof -
  from download_files [OF assms(1)] consider
      "files w' = files w"
    | fn pdf where "files w (fn @ ''.pdf'') = None" "files w' = (files w)(fn @ ''.pdf'' \<mapsto> pdf)"
    | fn data where "files w' = (files w)(fn @ ''.html'' \<mapsto> data)"
    by blast
  then show ?thesis
  proof cases
    case 1
    then show ?thesis by simp
  next
    case 2
    with assms(3) have "p \<noteq> fn @ ''.pdf''" by auto
    with 2 show ?thesis by simp
  next
    case 3
    from assms(2) html_not_pdf [of fn] have "p \<noteq> fn @ ''.html''" by auto
    with 3 show ?thesis by simp
  qed
qed

lemma download_existing_frame:
  "download_and_convert_to_pdf e url w fu = (Inr Existing, w', fu') \<Longrightarrow>
     files w' = files w \<and> render_log w' = render_log w \<and> fu' = fu"
  unfolding converter_defs
  by (auto split: prod.splits sum.splits option.splits if_splits)

lemma download_render_failure:
  assumes "fetch e url w = (Inr response, w1)"
    and "parse_html e (response_text response) = Inr soup"
    and "filename = post_filename (urlparse_path e) (get_blog_title soup) url"
    and "exists_error e (filename @ ''.pdf'') = None"
    and "files w (filename @ ''.pdf'') = None"
    and "weasyprint_available e"
    and "write_pdf e (soup_str e (clean_html_for_pdf soup)) url (filename @ ''.pdf'') w1 = (Inl ex, w2)"
  shows "download_and_convert_to_pdf e url w fu =
           (Inr Error,
            (if open_error e (filename @ ''.html'') = None
             then w2\<lparr>files := (files w2)(filename @ ''.html'' \<mapsto> response_text response)\<rparr>
             else w2),
            fu @ [(url, message ex)])"
proof -
  from fetch_world [OF assms(1)] have w1: "w1 = w\<lparr>http_log := http_log w @ [url]\<rparr>" .
  with assms(5) have "files w1 (filename @ ''.pdf'') = None" by simp
  with assms(1,2,4,6,7) show ?thesis
    unfolding assms(3)
    by (simp add: download_and_convert_to_pdf_def Let_def write_file_def split: option.splits)
qed

text \<open>
  C2. When the post is fetched and parsed and the PDF of its computed name is in the output
  directory, the converter returns \<open>existing\<close>; the only change is the request in the log:
  no file is written and the renderer is not called. In every run on one post the files of
  the directory stay as they are, or one PDF that was not there is added (outcome
  \<open>success\<close>), or one \<open>.html\<close> file is written (outcome \<open>error\<close>); a PDF that exists keeps
  its contents.
\<close>

theorem converter_single_write:
  "(\<forall>response w1 soup.
      fetch e url w = (Inr response, w1) \<and> parse_html e (response_text response) = Inr soup
      \<and> exists_error e (post_filename (urlparse_path e) (get_blog_title soup) url @ ''.pdf'') = None
      \<and> files w (post_filename (urlparse_path e) (get_blog_title soup) url @ ''.pdf'') \<noteq> None
      \<longrightarrow> download_and_convert_to_pdf e url w fu =
            (Inr Existing, w\<lparr>http_log := http_log w @ [url]\<rparr>, fu))
   \<and> (\<forall>r w' fu'. download_and_convert_to_pdf e url w fu = (r, w', fu') \<longrightarrow>
        (files w' = files w
         \<or> (\<exists>fn pdf. r = Inr Success \<and> files w (fn @ ''.pdf'') = None
               \<and> files w' = (files w)(fn @ ''.pdf'' \<mapsto> pdf))
         \<or> (\<exists>fn txt. r = Inr Error \<and> files w' = (files w)(fn @ ''.html'' \<mapsto> txt)))
        \<and> (\<forall>p. endswith p ''.pdf'' \<and> files w p \<noteq> None \<longrightarrow> files w' p = files w p)
        \<and> (r = Inr Existing \<longrightarrow> files w' = files w \<and> render_log w' = render_log w))"
proof (intro conjI allI impI)
  fix response w1 soup
  assume "fetch e url w = (Inr response, w1) \<and> parse_html e (response_text response) = Inr soup
      \<and> exists_error e (post_filename (urlparse_path e) (get_blog_title soup) url @ ''.pdf'') = None
      \<and> files w (post_filename (urlparse_path e) (get_blog_title soup) url @ ''.pdf'') \<noteq> None"
  then show "download_and_convert_to_pdf e url w fu =
            (Inr Existing, w\<lparr>http_log := http_log w @ [url]\<rparr>, fu)"
    using download_existing [of e url w response w1 soup fu] by blast
next
  fix r w' fu' assume "download_and_convert_to_pdf e url w fu = (r, w', fu')"
  then show "files w' = files w
         \<or> (\<exists>fn pdf. r = Inr Success \<and> files w (fn @ ''.pdf'') = None
               \<and> files w' = (files w)(fn @ ''.pdf'' \<mapsto> pdf))
         \<or> (\<exists>fn txt. r = Inr Error \<and> files w' = (files w)(fn @ ''.html'' \<mapsto> txt))"
    by (rule download_files)
next
  fix r w' fu' p
  assume "download_and_convert_to_pdf e url w fu = (r, w', fu')"
    and "endswith p ''.pdf'' \<and> files w p \<noteq> None"
  then show "files w' p = files w p"
    using download_keeps_pdf [of e url w fu r w' fu' p] by blast
next
  fix r w' fu'
  assume "download_and_convert_to_pdf e url w fu = (r, w', fu')" and "r = Inr Existing"
  then show "files w' = files w" and "render_log w' = render_log w"
    using download_existing_frame [of e url w fu w' fu'] by blast+
qed

text \<open>
  C7. When the post is fetched and parsed, its PDF does not exist, the renderer is installed
  and \<open>write_pdf\<close> on the cleaned markup raises \<open>ex\<close>, the converter appends the pair of the
  URL and the message of \<open>ex\<close> to the failure list and returns \<open>error\<close>. The file
  \<open>filename.html\<close> then holds the text of the response as it was fetched, not the cleaned
  markup; if that file cannot be opened, nothing is written and the outcome is \<open>error\<close> all the
  same.
\<close>

theorem render_failure_backup:
  "fetch e url w = (Inr response, w1) \<and> parse_html e (response_text response) = Inr soup
   \<and> filename = post_filename (urlparse_path e) (get_blog_title soup) url
   \<and> exists_error e (filename @ ''.pdf'') = None \<and> files w (filename @ ''.pdf'') = None
   \<and> weasyprint_available e
   \<and> write_pdf e (soup_str e (clean_html_for_pdf soup)) url (filename @ ''.pdf'') w1 = (Inl ex, w2)
   \<longrightarrow> download_and_convert_to_pdf e url w fu =
         (Inr Error,
          (if open_error e (filename @ ''.html'') = None
           then w2\<lparr>files := (files w2)(filename @ ''.html'' \<mapsto> response_text response)\<rparr>
           else w2),
          fu @ [(url, message ex)])
       \<and> files w2 = files w"
proof (intro impI conjI)
  assume a: "fetch e url w = (Inr response, w1) \<and> parse_html e (response_text response) = Inr soup
   \<and> filename = post_filename (urlparse_path e) (get_blog_title soup) url
   \<and> exists_error e (filename @ ''.pdf'') = None \<and> files w (filename @ ''.pdf'') = None
   \<and> weasyprint_available e
   \<and> write_pdf e (soup_str e (clean_html_for_pdf soup)) url (filename @ ''.pdf'') w1 = (Inl ex, w2)"
  then show "download_and_convert_to_pdf e url w fu =
         (Inr Error,
          (if open_error e (filename @ ''.html'') = None
           then w2\<lparr>files := (files w2)(filename @ ''.html'' \<mapsto> response_text response)\<rparr>
           else w2),
          fu @ [(url, message ex)])"
    using download_render_failure [of e url w response w1 soup filename ex w2 fu] by blast
  from a have "w1 = w\<lparr>http_log := http_log w @ [url]\<rparr>"
    using fetch_world [of e url w "Inr response" w1] by blast
  moreover from a have "w2 = w1\<lparr>render_log := render_log w1 @ [url]\<rparr>"
    using write_pdf_files [of e _ url _ w1 ex w2] by blast
  ultimately show "files w2 = files w" by simp
qed


section \<open>The converter on the small site\<close>

lemma demo_title_first: "get_blog_title soup_first = ''A/B: Test?''"
  by (simp add: get_blog_title_def find_tag_def find_all_def soup_first_def strip_def
      strip_with_def isspace_char_def whitespace_def interesting_string_types_def)

lemma demo_title_third: "get_blog_title soup_third = ''Third post''"
  by (simp add: get_blog_title_def find_tag_def find_all_def soup_third_def strip_def
      strip_with_def isspace_char_def whitespace_def interesting_string_types_def)

lemma demo_filename_first:
  "post_filename demo_path ''A/B: Test?'' url_first = ''2024-03-07_AB_Test''"
  by (simp add: post_filename_def base_filename_def sanitize_filename_example isspace_def
      isspace_char_def whitespace_def url_first_def extract_date_from_url_def match_date_def
      is_digit_def)

lemma demo_filename_third:
  "post_filename demo_path ''Third post'' url_third = ''Third_post''"
  by (simp add: post_filename_def base_filename_def sanitize_filename_eq invalid_chars_def
      isspace_def isspace_char_def whitespace_def url_third_def extract_date_from_url_def
      match_date_def is_digit_def)

lemma demo_fetch_first:
  "fetch demo_env url_first w =
     (Inr \<lparr>response_text = text_first, http_error = None\<rparr>,
      w\<lparr>http_log := http_log w @ [url_first]\<rparr>)"
  by (simp add: fetch_def demo_env_def url_first_def)

lemma demo_fetch_second:
  "fetch demo_env url_second w =
     (Inl (Exception ''connection refused''), w\<lparr>http_log := http_log w @ [url_second]\<rparr>)"
  by (simp add: fetch_def demo_env_def url_first_def url_second_def)

lemma demo_fetch_third:
  "fetch demo_env url_third w =
     (Inr \<lparr>response_text = text_third, http_error = None\<rparr>,
      w\<lparr>http_log := http_log w @ [url_third]\<rparr>)"
  by (simp add: fetch_def demo_env_def url_first_def url_second_def url_third_def)

lemma demo_parse_first: "parse_html demo_env text_first = Inr soup_first"
  by (simp add: demo_env_def text_first_def demo_index_text_def)

lemma demo_parse_third: "parse_html demo_env text_third = Inr soup_third"
  by (simp add: demo_env_def text_first_def text_third_def demo_index_text_def)

lemma demo_env_fields:
  "urlparse_path demo_env = demo_path" "weasyprint_available demo_env"
  "exists_error demo_env name = None" "open_error demo_env name = None"
  "soup_str demo_env = demo_str"
  by (simp_all add: demo_env_def)

lemma demo_render_first:
  "render_pdf demo_env html url_first = Inr (''%PDF '' @ html)"
  by (simp add: demo_env_def url_first_def url_third_def)

lemma demo_render_third:
  "render_pdf demo_env html url_third = Inl (Exception ''render failed'')"
  by (simp add: demo_env_def)

lemma demo_download_first_existing:
  "files w ''2024-03-07_AB_Test.pdf'' \<noteq> None \<Longrightarrow>
     download_and_convert_to_pdf demo_env url_first w fu =
       (Inr Existing, w\<lparr>http_log := http_log w @ [url_first]\<rparr>, fu)"
  by (simp add: download_and_convert_to_pdf_def demo_fetch_first demo_parse_first
      demo_title_first demo_env_fields demo_filename_first)

lemma demo_download_first_new:
  "files w ''2024-03-07_AB_Test.pdf'' = None \<Longrightarrow>
     download_and_convert_to_pdf demo_env url_first w fu =
       (Inr Success,
        w\<lparr>http_log := http_log w @ [url_first], render_log := render_log w @ [url_first],
          files := (files w)(''2024-03-07_AB_Test.pdf'' \<mapsto>
                      ''%PDF '' @ demo_str (clean_html_for_pdf soup_first))\<rparr>,
        fu)"
  by (simp add: download_and_convert_to_pdf_def demo_fetch_first demo_parse_first
      demo_title_first demo_env_fields demo_filename_first write_pdf_def write_file_def
      demo_render_first)

lemma demo_download_second:
  "download_and_convert_to_pdf demo_env url_second w fu =
     (Inl (Exception ''connection refused''), w\<lparr>http_log := http_log w @ [url_second]\<rparr>, fu)"
  by (simp add: download_and_convert_to_pdf_def demo_fetch_second)

lemma demo_download_third:
  "files w ''Third_post.pdf'' = None \<Longrightarrow>
     download_and_convert_to_pdf demo_env url_third w fu =
       (Inr Error,
        w\<lparr>http_log := http_log w @ [url_third], render_log := render_log w @ [url_third],
          files := (files w)(''Third_post.html'' \<mapsto> text_third)\<rparr>,
        fu @ [(url_third, ''render failed'')])"
  by (simp add: download_and_convert_to_pdf_def demo_fetch_third demo_parse_third
      demo_title_third demo_env_fields demo_filename_third write_pdf_def write_file_def
      demo_render_third)

lemma demo_clean_third:
  "demo_str (clean_html_for_pdf soup_third) =
     ''<html><head><title>Third post</title><style>'' @ style_css @ ''</style></head>'' @
     ''<body><h2>Sub heading</h2><p>Text</p></body></html>''"
  by (simp add: clean_html_for_pdf_def soup_third_def class_denylist_def has_class_def
      isspace_char_def whitespace_def)

lemma demo_clean_third_differs:
  "demo_str (clean_html_for_pdf soup_third) \<noteq> text_third"
  unfolding demo_clean_third by (simp add: text_third_def)


theorem converter_single_write_witness:
  "download_and_convert_to_pdf demo_env url_first
      (demo_world\<lparr>files := [''2024-03-07_AB_Test.pdf'' \<mapsto> ''%PDF old'']\<rparr>) []
     = (Inr Existing,
        demo_world\<lparr>files := [''2024-03-07_AB_Test.pdf'' \<mapsto> ''%PDF old''],
          http_log := [url_first]\<rparr>, [])
   \<and> download_and_convert_to_pdf demo_env url_first demo_world []
     = (Inr Success,
        demo_world\<lparr>http_log := [url_first], render_log := [url_first],
          files := [''2024-03-07_AB_Test.pdf'' \<mapsto>
                      ''%PDF '' @ demo_str (clean_html_for_pdf soup_first)]\<rparr>, [])"
proof -
  let ?w = "demo_world\<lparr>files := [''2024-03-07_AB_Test.pdf'' \<mapsto> ''%PDF old'']\<rparr>"
  let ?r = "\<lparr>response_text = text_first, http_error = None\<rparr>"
  have f: "fetch demo_env url_first ?w = (Inr ?r, ?w\<lparr>http_log := http_log ?w @ [url_first]\<rparr>)"
    by (rule demo_fetch_first)
  have p: "parse_html demo_env (response_text ?r) = Inr soup_first"
    by (simp add: demo_parse_first)
  have x: "exists_error demo_env
      (post_filename (urlparse_path demo_env) (get_blog_title soup_first) url_first @ ''.pdf'') = None"
    by (rule demo_env_fields)
  have y: "files ?w
      (post_filename (urlparse_path demo_env) (get_blog_title soup_first) url_first @ ''.pdf'') \<noteq> None"
    by (simp add: demo_env_fields demo_title_first demo_filename_first)
  from converter_single_write [of demo_env url_first ?w "[]"] f p x y
  have "download_and_convert_to_pdf demo_env url_first ?w [] =
          (Inr Existing, ?w\<lparr>http_log := http_log ?w @ [url_first]\<rparr>, [])"
    by blast
  then have a: "download_and_convert_to_pdf demo_env url_first ?w []
     = (Inr Existing,
        demo_world\<lparr>files := [''2024-03-07_AB_Test.pdf'' \<mapsto> ''%PDF old''],
          http_log := [url_first]\<rparr>, [])"
    by (simp add: demo_world_def)
  have b: "download_and_convert_to_pdf demo_env url_first demo_world []
     = (Inr Success,
        demo_world\<lparr>http_log := [url_first], render_log := [url_first],
          files := [''2024-03-07_AB_Test.pdf'' \<mapsto>
                      ''%PDF '' @ demo_str (clean_html_for_pdf soup_first)]\<rparr>, [])"
    using demo_download_first_new [of demo_world "[]"] by (simp add: demo_world_def)
  from a b show ?thesis by (rule conjI)
qed

theorem render_failure_backup_witness:
  "download_and_convert_to_pdf demo_env url_third demo_world []
     = (Inr Error,
        demo_world\<lparr>http_log := [url_third], render_log := [url_third],
          files := [''Third_post.html'' \<mapsto> text_third]\<rparr>,
        [(url_third, ''render failed'')])
   \<and> soup_str demo_env (clean_html_for_pdf soup_third) \<noteq> text_third"
proof -
  let ?r = "\<lparr>response_text = text_third, http_error = None\<rparr>"
  let ?w1 = "demo_world\<lparr>http_log := http_log demo_world @ [url_third]\<rparr>"
  let ?w2 = "?w1\<lparr>render_log := render_log ?w1 @ [url_third]\<rparr>"
  have f: "fetch demo_env url_third demo_world = (Inr ?r, ?w1)"
    by (rule demo_fetch_third)
  have p: "parse_html demo_env (response_text ?r) = Inr soup_third"
    by (simp add: demo_parse_third)
  have n: "''Third_post'' = post_filename (urlparse_path demo_env) (get_blog_title soup_third) url_third"
    by (simp add: demo_env_fields demo_title_third demo_filename_third)
  have x: "exists_error demo_env (''Third_post'' @ ''.pdf'') = None"
    by (rule demo_env_fields)
  have y: "files demo_world (''Third_post'' @ ''.pdf'') = None"
    by (simp add: demo_world_def)
  have a: "weasyprint_available demo_env"
    by (rule demo_env_fields)
  have r: "write_pdf demo_env (soup_str demo_env (clean_html_for_pdf soup_third)) url_third
             (''Third_post'' @ ''.pdf'') ?w1 = (Inl (Exception ''render failed''), ?w2)"
    by (simp add: write_pdf_def demo_render_third)
  from render_failure_backup [of demo_env url_third demo_world ?r ?w1 soup_third "''Third_post''"
      "Exception ''render failed''" ?w2 "[]"] f p n x y a r
  have "download_and_convert_to_pdf demo_env url_third demo_world [] =
         (Inr Error,
          (if open_error demo_env (''Third_post'' @ ''.html'') = None
           then ?w2\<lparr>files := (files ?w2)(''Third_post'' @ ''.html'' \<mapsto> response_text ?r)\<rparr>
           else ?w2),
          [] @ [(url_third, message (Exception ''render failed''))])"
    by blast
  then have d: "download_and_convert_to_pdf demo_env url_third demo_world []
     = (Inr Error,
        demo_world\<lparr>http_log := [url_third], render_log := [url_third],
          files := [''Third_post.html'' \<mapsto> text_third]\<rparr>,
        [(url_third, ''render failed'')])"
    by (simp add: demo_env_fields demo_world_def)
  have c: "soup_str demo_env (clean_html_for_pdf soup_third) \<noteq> text_third"
    by (simp add: demo_env_fields demo_clean_third_differs)
  from d c show ?thesis by (rule conjI)
qed


section \<open>Properties of the loop of \<open>main\<close>\<close>

lemma download_http_log:
  "download_and_convert_to_pdf e url w fu = (r, w', fu') \<Longrightarrow> http_log w' = http_log w @ [url]"
  unfolding converter_defs
  by (auto split: prod.splits sum.splits option.splits if_splits)

lemma download_raises:
  "download_and_convert_to_pdf e url w fu = (Inl ex, w', fu') \<Longrightarrow>
     fu' = fu \<and> files w' = files w \<and> render_log w' = render_log w"
  unfolding converter_defs
  by (auto split: prod.splits sum.splits option.splits if_splits)

lemma download_failed_urls:
  "download_and_convert_to_pdf e url w fu = (Inr result, w', fu') \<Longrightarrow>
     length fu' = length fu + (if result = Error then 1 else 0)"
  unfolding converter_defs
  by (auto split: prod.splits sum.splits option.splits if_splits)

lemma download_fetch_raises:
  "requests_get e url = Inl ex \<Longrightarrow>
     download_and_convert_to_pdf e url w fu = (Inl ex, w\<lparr>http_log := http_log w @ [url]\<rparr>, fu)"
  by (simp add: download_and_convert_to_pdf_def fetch_def)

lemma process_url_raises:
  assumes "download_and_convert_to_pdf e u (world t) (failed_urls t) = (Inl ex, w', fu')"
  shows "process_url e t u =
           t\<lparr>world := w', error_count := error_count t + 1,
             failed_urls := failed_urls t @ [(u, message ex)]\<rparr>"
  using assms download_raises [OF assms] by (simp add: process_url_def)

lemma process_url_http_log:
  "http_log (world (process_url e t u)) = http_log (world t) @ [u]"
proof -
  obtain r w' fu' where d: "download_and_convert_to_pdf e u (world t) (failed_urls t) = (r, w', fu')"
    by (cases "download_and_convert_to_pdf e u (world t) (failed_urls t)") auto
  from download_http_log [OF d] d show ?thesis
    by (cases r) (simp_all add: process_url_def Let_def)
qed

lemma process_urls_Nil: "process_urls e t [] = t"
  by (simp add: process_urls_def)

lemma process_urls_Cons: "process_urls e t (u # us) = process_urls e (process_url e t u) us"
  by (simp add: process_urls_def)

lemma process_urls_snoc: "process_urls e t (us @ [u]) = process_url e (process_urls e t us) u"
  by (simp add: process_urls_def)

lemma process_urls_append:
  "process_urls e t (us @ vs) = process_urls e (process_urls e t us) vs"
  by (simp add: process_urls_def)

lemma process_urls_http_log:
  "http_log (world (process_urls e t us)) = http_log (world t) @ us"
  by (induction us arbitrary: t) (simp_all add: process_urls_Nil process_urls_Cons process_url_http_log)

lemma process_url_counts:
  "new_count (process_url e t u) + existing_count (process_url e t u) + error_count (process_url e t u)
     = new_count t + existing_count t + error_count t + 1"
proof -
  obtain r w' fu' where d: "download_and_convert_to_pdf e u (world t) (failed_urls t) = (r, w', fu')"
    by (cases "download_and_convert_to_pdf e u (world t) (failed_urls t)") auto
  then show ?thesis
    by (cases r) (simp_all add: process_url_def Let_def)
qed

lemma process_url_failed:
  "error_count (process_url e t u) + length (failed_urls t)
     = error_count t + length (failed_urls (process_url e t u))"
proof -
  obtain r w' fu' where d: "download_and_convert_to_pdf e u (world t) (failed_urls t) = (r, w', fu')"
    by (cases "download_and_convert_to_pdf e u (world t) (failed_urls t)") auto
  show ?thesis
  proof (cases r)
    case (Inl ex)
    with d download_raises [of e u "world t" "failed_urls t" ex w' fu'] show ?thesis
      by (simp add: process_url_def)
  next
    case (Inr result)
    with d download_failed_urls [of e u "world t" "failed_urls t" result w' fu'] show ?thesis
      by (cases result) (simp_all add: process_url_def Let_def)
  qed
qed

lemma process_urls_counts:
  "new_count (process_urls e t us) + existing_count (process_urls e t us)
     + error_count (process_urls e t us)
     = new_count t + existing_count t + error_count t + length us"
proof (induction us rule: rev_induct)
  case Nil
  show ?case by (simp add: process_urls_Nil)
next
  case (snoc u us)
  from process_url_counts [of e "process_urls e t us" u] snoc show ?case
    by (simp add: process_urls_snoc)
qed

lemma process_urls_failed:
  "error_count (process_urls e t us) + length (failed_urls t)
     = error_count t + length (failed_urls (process_urls e t us))"
proof (induction us rule: rev_induct)
  case Nil
  show ?case by (simp add: process_urls_Nil)
next
  case (snoc u us)
  from process_url_failed [of e "process_urls e t us" u] snoc show ?case
    by (simp add: process_urls_snoc)
qed

lemma demo_step_first:
  "files (world t) ''2024-03-07_AB_Test.pdf'' = None \<Longrightarrow>
     process_url demo_env t url_first =
       t\<lparr>new_count := new_count t + 1,
         world := (world t)\<lparr>http_log := http_log (world t) @ [url_first],
                    render_log := render_log (world t) @ [url_first],
                    files := (files (world t))(''2024-03-07_AB_Test.pdf'' \<mapsto>
                       ''%PDF '' @ demo_str (clean_html_for_pdf soup_first))\<rparr>\<rparr>"
  by (simp add: process_url_def demo_download_first_new)

lemma demo_step_first_again:
  "files (world t) ''2024-03-07_AB_Test.pdf'' \<noteq> None \<Longrightarrow>
     process_url demo_env t url_first =
       t\<lparr>existing_count := existing_count t + 1,
         world := (world t)\<lparr>http_log := http_log (world t) @ [url_first]\<rparr>\<rparr>"
  by (simp add: process_url_def demo_download_first_existing)

lemma demo_step_second:
  "process_url demo_env t url_second =
     t\<lparr>error_count := error_count t + 1,
       failed_urls := failed_urls t @ [(url_second, ''connection refused'')],
       world := (world t)\<lparr>http_log := http_log (world t) @ [url_second]\<rparr>\<rparr>"
  by (simp add: process_url_def demo_download_second)

lemma demo_step_third:
  "files (world t) ''Third_post.pdf'' = None \<Longrightarrow>
     process_url demo_env t url_third =
       t\<lparr>error_count := error_count t + 1,
         failed_urls := failed_urls t @ [(url_third, ''render failed'')],
         world := (world t)\<lparr>http_log := http_log (world t) @ [url_third],
                    render_log := render_log (world t) @ [url_third],
                    files := (files (world t))(''Third_post.html'' \<mapsto> text_third)\<rparr>\<rparr>"
  by (simp add: process_url_def demo_download_third)

lemma demo_run_retry:
  "process_urls demo_env (start_tally demo_world) [url_first, url_second, url_first] =
     \<lparr>new_count = 1, existing_count = 1, error_count = 1,
      failed_urls = [(url_second, ''connection refused'')],
      world = \<lparr>files = [''2024-03-07_AB_Test.pdf'' \<mapsto>
                          ''%PDF '' @ demo_str (clean_html_for_pdf soup_first)],
               http_log = [url_first, url_second, url_first],
               render_log = [url_first]\<rparr>\<rparr>"
  by (simp add: process_urls_def start_tally_def demo_world_def demo_step_first demo_step_second
      demo_step_first_again)

lemma demo_run_three:
  "process_urls demo_env (start_tally demo_world) [url_first, url_second, url_third] =
     \<lparr>new_count = 1, existing_count = 0, error_count = 2,
      failed_urls = [(url_second, ''connection refused''), (url_third, ''render failed'')],
      world = \<lparr>files = [''2024-03-07_AB_Test.pdf'' \<mapsto>
                          ''%PDF '' @ demo_str (clean_html_for_pdf soup_first),
                        ''Third_post.html'' \<mapsto> text_third],
               http_log = [url_first, url_second, url_third],
               render_log = [url_first, url_third]\<rparr>\<rparr>"
  by (simp add: process_urls_def start_tally_def demo_world_def demo_step_first demo_step_second
      demo_step_third)

lemma demo_requests_second:
  "requests_get demo_env url_second = Inl (Exception ''connection refused'')"
  by (simp add: demo_env_def url_first_def url_second_def)

section \<open>Properties of the fallback file name\<close>

lemma strip_with_decomp:
  "\<exists>pre suf. s = pre @ strip_with p s @ suf \<and> list_all p pre \<and> list_all p suf"
proof -
  let ?d = "dropWhile p s"
  have s: "s = takeWhile p s @ ?d" by simp
  have "rev (takeWhile p (rev ?d) @ dropWhile p (rev ?d)) = rev (rev ?d)"
    by (simp only: takeWhile_dropWhile_id)
  then have "rev (dropWhile p (rev ?d)) @ rev (takeWhile p (rev ?d)) = ?d"
    by (simp only: rev_append rev_rev_ident)
  then have d: "?d = strip_with p s @ rev (takeWhile p (rev ?d))"
    by (simp only: strip_with_def)
  have a: "list_all p (takeWhile p s)"
    by (auto simp: list_all_iff dest: set_takeWhileD)
  have b: "list_all p (rev (takeWhile p (rev ?d)))"
    by (auto simp: list_all_iff dest: set_takeWhileD)
  from s d have "s = takeWhile p s @ strip_with p s @ rev (takeWhile p (rev ?d))" by simp
  with a b show ?thesis by blast
qed

lemma base_filename_fallback:
  "sanitize_filename title = [] \<or> isspace (sanitize_filename title) \<Longrightarrow>
     base_filename up title url = fallback_filename up url"
  by (simp add: base_filename_def)

lemma fallback_filename_part:
  "fallback_filename up url = ''blog_post''
   \<or> (\<exists>pre suf. replace_char (CHR ''/'') (CHR ''_'') (up url) = pre @ fallback_filename up url @ suf
         \<and> list_all (\<lambda>c. c = CHR ''_'') pre \<and> list_all (\<lambda>c. c = CHR ''_'') suf)"
  using strip_with_decomp [of "replace_char (CHR ''/'') (CHR ''_'') (up url)" "\<lambda>c. c = CHR ''_''"]
  by (auto simp: fallback_filename_def Let_def)

lemma fallback_filename_long:
  "up url = ''/blog/'' @ replicate 200 (CHR ''a'') @ '':.html'' \<Longrightarrow>
     fallback_filename up url = ''blog_'' @ replicate 200 (CHR ''a'') @ '':.html''"
  by (simp add: fallback_filename_def replace_char_def strip_with_def)

text \<open>
  C10. When the sanitized title is empty or all whitespace, the base name is the fallback
  name and nothing else is done to it: unless it is \<open>blog_post\<close>, it is the path of the URL
  with every slash turned into an underscore, less the underscores at its two ends. So a post
  whose path is \<open>/blog/\<close>, two hundred times \<open>a\<close> and \<open>:.html\<close> gets a base name of 211
  characters with a colon in it, which \<open>sanitize_filename\<close> would have removed.
\<close>

theorem fallback_filename_verbatim:
  "(sanitize_filename title = [] \<or> isspace (sanitize_filename title) \<longrightarrow>
      base_filename up title url = fallback_filename up url
      \<and> (fallback_filename up url = ''blog_post''
         \<or> (\<exists>pre suf.
               replace_char (CHR ''/'') (CHR ''_'') (up url) = pre @ fallback_filename up url @ suf
               \<and> list_all (\<lambda>c. c = CHR ''_'') pre \<and> list_all (\<lambda>c. c = CHR ''_'') suf)))
   \<and> ((sanitize_filename title = [] \<or> isspace (sanitize_filename title))
       \<and> up url = ''/blog/'' @ replicate 200 (CHR ''a'') @ '':.html'' \<longrightarrow>
         base_filename up title url = ''blog_'' @ replicate 200 (CHR ''a'') @ '':.html''
         \<and> length (base_filename up title url) = 211
         \<and> CHR '':'' \<in> set (base_filename up title url)
         \<and> CHR '':'' \<in> set invalid_chars)"
proof (intro conjI impI)
  assume "sanitize_filename title = [] \<or> isspace (sanitize_filename title)"
  then show "base_filename up title url = fallback_filename up url"
    by (rule base_filename_fallback)
  show "fallback_filename up url = ''blog_post''
         \<or> (\<exists>pre suf.
               replace_char (CHR ''/'') (CHR ''_'') (up url) = pre @ fallback_filename up url @ suf
               \<and> list_all (\<lambda>c. c = CHR ''_'') pre \<and> list_all (\<lambda>c. c = CHR ''_'') suf)"
    by (rule fallback_filename_part)
next
  assume a: "(sanitize_filename title = [] \<or> isspace (sanitize_filename title))
       \<and> up url = ''/blog/'' @ replicate 200 (CHR ''a'') @ '':.html''"
  then have b: "base_filename up title url = ''blog_'' @ replicate 200 (CHR ''a'') @ '':.html''"
    using base_filename_fallback [of title up url] fallback_filename_long [of up url] by simp
  then show "base_filename up title url = ''blog_'' @ replicate 200 (CHR ''a'') @ '':.html''" .
  from b show "length (base_filename up title url) = 211" by simp
  from b show "CHR '':'' \<in> set (base_filename up title url)" by simp
  show "CHR '':'' \<in> set invalid_chars" by (simp add: invalid_chars_def)
qed

theorem fallback_filename_verbatim_witness:
  "sanitize_filename ''???'' = []
   \<and> demo_path (''https://site/blog/'' @ replicate 200 (CHR ''a'') @ '':.html'')
        = ''/blog/'' @ replicate 200 (CHR ''a'') @ '':.html''
   \<and> base_filename demo_path ''???'' (''https://site/blog/'' @ replicate 200 (CHR ''a'') @ '':.html'')
        = ''blog_'' @ replicate 200 (CHR ''a'') @ '':.html''
   \<and> length (base_filename demo_path ''???''
        (''https://site/blog/'' @ replicate 200 (CHR ''a'') @ '':.html'')) = 211
   \<and> base_filename demo_path ''???'' ''https://site/blog/a:b.html'' = ''blog_a:b.html''"
proof -
  have s: "sanitize_filename ''???'' = []"
    by (simp add: sanitize_filename_eq invalid_chars_def)
  have p: "demo_path (''https://site/blog/'' @ replicate 200 (CHR ''a'') @ '':.html'')
        = ''/blog/'' @ replicate 200 (CHR ''a'') @ '':.html''"
    by (simp add: demo_path_def)
  from fallback_filename_verbatim [of "''???''" demo_path
      "''https://site/blog/'' @ replicate 200 (CHR ''a'') @ '':.html''"] s p
  have l: "base_filename demo_path ''???'' (''https://site/blog/'' @ replicate 200 (CHR ''a'') @ '':.html'')
        = ''blog_'' @ replicate 200 (CHR ''a'') @ '':.html''
     \<and> length (base_filename demo_path ''???''
        (''https://site/blog/'' @ replicate 200 (CHR ''a'') @ '':.html'')) = 211"
    by blast
  from fallback_filename_verbatim [of "''???''" demo_path "''https://site/blog/a:b.html''"] s
  have "base_filename demo_path ''???'' ''https://site/blog/a:b.html''
      = fallback_filename demo_path ''https://site/blog/a:b.html''"
    by blast
  also have "\<dots> = ''blog_a:b.html''"
    by (simp add: fallback_filename_def demo_path_def replace_char_def strip_with_def)
  finally have c: "base_filename demo_path ''???'' ''https://site/blog/a:b.html'' = ''blog_a:b.html''" .
  from s p l c show ?thesis by blast
qed


section \<open>Posts do not influence each other through failures\<close>

lemma download_independent:
  assumes f: "files w2 = files w1"
  shows "fst (download_and_convert_to_pdf e u w2 fu2) = fst (download_and_convert_to_pdf e u w1 fu1)
    \<and> files (fst (snd (download_and_convert_to_pdf e u w2 fu2)))
        = files (fst (snd (download_and_convert_to_pdf e u w1 fu1)))
    \<and> (render_log w2 = render_log w1 \<longrightarrow>
         render_log (fst (snd (download_and_convert_to_pdf e u w2 fu2)))
           = render_log (fst (snd (download_and_convert_to_pdf e u w1 fu1))))
    \<and> (\<exists>d. snd (snd (download_and_convert_to_pdf e u w1 fu1)) = fu1 @ d
           \<and> snd (snd (download_and_convert_to_pdf e u w2 fu2)) = fu2 @ d)"
proof (cases "requests_get e u")
  case (Inl ex)
  then show ?thesis using f by (simp add: converter_defs)
next
  case (Inr response)
  note r = this
  show ?thesis
  proof (cases "http_error response")
    case (Some m)
    with r show ?thesis using f by (simp add: converter_defs)
  next
    case None
    note h = this
    show ?thesis
    proof (cases "parse_html e (response_text response)")
      case (Inl ex)
      with r h show ?thesis using f by (simp add: converter_defs)
    next
      case (Inr soup)
      note p = this
      let ?pdf = "post_filename (urlparse_path e) (get_blog_title soup) u @ ''.pdf''"
      let ?html = "post_filename (urlparse_path e) (get_blog_title soup) u @ ''.html''"
      show ?thesis
      proof (cases "exists_error e ?pdf")
        case (Some m)
        with r h p show ?thesis using f by (simp add: converter_defs)
      next
        case None
        note x = this
        show ?thesis
        proof (cases "files w1 ?pdf")
          case (Some y)
          with r h p x show ?thesis using f by (simp add: converter_defs)
        next
          case None
          note n = this
          show ?thesis
          proof (cases "weasyprint_available e")
            case False
            with r h p x n show ?thesis using f by (simp add: converter_defs)
          next
            case True
            note a = this
            show ?thesis
            proof (cases "render_pdf e (soup_str e (clean_html_for_pdf soup)) u")
              case (Inl ex)
              with r h p x n a show ?thesis using f
                by (cases "open_error e ?html") (simp_all add: converter_defs)
            next
              case (Inr pdf)
              note g = this
              show ?thesis
              proof (cases "open_error e ?pdf")
                case None
                with r h p x n a g show ?thesis using f by (simp add: converter_defs)
              next
                case (Some m)
                with r h p x n a g show ?thesis using f
                  by (cases "open_error e ?html") (simp_all add: converter_defs)
              qed
            qed
          qed
        qed
      qed
    qed
  qed
qed


lemma process_url_returns:
  assumes "download_and_convert_to_pdf e u (world t) (failed_urls t) = (Inr result, w', fu')"
  shows "world (process_url e t u) = w'"
    and "failed_urls (process_url e t u) = fu'"
    and "new_count (process_url e t u) = new_count t + (if result = Success then 1 else 0)"
    and "existing_count (process_url e t u) = existing_count t + (if result = Existing then 1 else 0)"
    and "error_count (process_url e t u) = error_count t + (if result = Error then 1 else 0)"
  using assms by (cases result; simp add: process_url_def Let_def)+

lemma outcomes_append:
  "outcomes e t (us @ vs) = outcomes e t us @ outcomes e (process_urls e t us) vs"
  by (induction us arbitrary: t) (simp_all add: process_urls_Nil process_urls_Cons)

lemma length_outcomes: "length (outcomes e t us) = length us"
  by (induction us arbitrary: t) simp_all

lemma process_url_related:
  assumes "files (world t1) = files (world t2)"
    and "render_log (world t1) = render_log (world t2)"
    and "new_count t1 = new_count t2"
    and "existing_count t1 = existing_count t2"
    and "error_count t1 = error_count t2 + 1"
    and "failed_urls t1 = F @ x # rest"
    and "failed_urls t2 = F @ rest"
  shows "fst (download_and_convert_to_pdf e v (world t1) (failed_urls t1))
           = fst (download_and_convert_to_pdf e v (world t2) (failed_urls t2))
    \<and> files (world (process_url e t1 v)) = files (world (process_url e t2 v))
    \<and> render_log (world (process_url e t1 v)) = render_log (world (process_url e t2 v))
    \<and> new_count (process_url e t1 v) = new_count (process_url e t2 v)
    \<and> existing_count (process_url e t1 v) = existing_count (process_url e t2 v)
    \<and> error_count (process_url e t1 v) = error_count (process_url e t2 v) + 1
    \<and> (\<exists>rest'. failed_urls (process_url e t1 v) = F @ x # rest'
           \<and> failed_urls (process_url e t2 v) = F @ rest')"
proof -
  obtain r1 w1 fu1 where d1:
    "download_and_convert_to_pdf e v (world t1) (failed_urls t1) = (r1, w1, fu1)"
    by (cases "download_and_convert_to_pdf e v (world t1) (failed_urls t1)") auto
  obtain r2 w2 fu2 where d2:
    "download_and_convert_to_pdf e v (world t2) (failed_urls t2) = (r2, w2, fu2)"
    by (cases "download_and_convert_to_pdf e v (world t2) (failed_urls t2)") auto
  from download_independent [OF assms(1), of e v "failed_urls t1" "failed_urls t2"] assms(2) d1 d2
  obtain d where r: "r1 = r2" and f: "files w1 = files w2" and l: "render_log w1 = render_log w2"
    and a2: "fu2 = failed_urls t2 @ d" and a1: "fu1 = failed_urls t1 @ d"
    by auto
  from a1 a2 assms(6,7) have fu: "fu1 = F @ x # (rest @ d)" "fu2 = F @ (rest @ d)" by simp_all
  show ?thesis
  proof (cases r2)
    case (Inl ex)
    with d1 d2 r f l fu assms(3,4,5) show ?thesis
      by (simp add: process_url_def)
  next
    case (Inr result)
    with d1 d2 r f l fu assms(3,4,5) show ?thesis
      by (cases result) (simp_all add: process_url_def Let_def)
  qed
qed

lemma process_urls_related:
  assumes "files (world t1) = files (world t2)"
    and "render_log (world t1) = render_log (world t2)"
    and "new_count t1 = new_count t2"
    and "existing_count t1 = existing_count t2"
    and "error_count t1 = error_count t2 + 1"
    and "failed_urls t1 = F @ x # rest"
    and "failed_urls t2 = F @ rest"
  shows "outcomes e t1 us = outcomes e t2 us
    \<and> files (world (process_urls e t1 us)) = files (world (process_urls e t2 us))
    \<and> render_log (world (process_urls e t1 us)) = render_log (world (process_urls e t2 us))
    \<and> new_count (process_urls e t1 us) = new_count (process_urls e t2 us)
    \<and> existing_count (process_urls e t1 us) = existing_count (process_urls e t2 us)
    \<and> error_count (process_urls e t1 us) = error_count (process_urls e t2 us) + 1
    \<and> (\<exists>rest'. failed_urls (process_urls e t1 us) = F @ x # rest'
           \<and> failed_urls (process_urls e t2 us) = F @ rest')"
  using assms
proof (induction us arbitrary: t1 t2 rest)
  case Nil
  then show ?case by (simp add: process_urls_Nil)
next
  case (Cons v us)
  from process_url_related [OF Cons.prems, of e v]
  obtain rest' where o: "fst (download_and_convert_to_pdf e v (world t1) (failed_urls t1))
           = fst (download_and_convert_to_pdf e v (world t2) (failed_urls t2))"
    and s: "files (world (process_url e t1 v)) = files (world (process_url e t2 v))"
      "render_log (world (process_url e t1 v)) = render_log (world (process_url e t2 v))"
      "new_count (process_url e t1 v) = new_count (process_url e t2 v)"
      "existing_count (process_url e t1 v) = existing_count (process_url e t2 v)"
      "error_count (process_url e t1 v) = error_count (process_url e t2 v) + 1"
      "failed_urls (process_url e t1 v) = F @ x # rest'"
      "failed_urls (process_url e t2 v) = F @ rest'"
    by blast
  from Cons.IH [OF s] o show ?case
    by (simp add: process_urls_Cons)
qed

lemma raising_post_isolated:
  assumes "fst (download_and_convert_to_pdf e u (world (process_urls e t before))
             (failed_urls (process_urls e t before))) = Inl ex"
  shows "outcomes e t (before @ u # after)
           = outcomes e t before @ Inl ex # outcomes e (process_urls e t before) after
    \<and> files (world (process_urls e t (before @ u # after)))
        = files (world (process_urls e t (before @ after)))
    \<and> render_log (world (process_urls e t (before @ u # after)))
        = render_log (world (process_urls e t (before @ after)))
    \<and> new_count (process_urls e t (before @ u # after))
        = new_count (process_urls e t (before @ after))
    \<and> existing_count (process_urls e t (before @ u # after))
        = existing_count (process_urls e t (before @ after))
    \<and> error_count (process_urls e t (before @ u # after))
        = error_count (process_urls e t (before @ after)) + 1
    \<and> (\<exists>rest. failed_urls (process_urls e t (before @ u # after))
                 = failed_urls (process_urls e t before) @ (u, message ex) # rest
           \<and> failed_urls (process_urls e t (before @ after))
                 = failed_urls (process_urls e t before) @ rest)"
proof -
  let ?tb = "process_urls e t before"
  obtain w' fu' where d:
    "download_and_convert_to_pdf e u (world ?tb) (failed_urls ?tb) = (Inl ex, w', fu')"
    using assms by (cases "download_and_convert_to_pdf e u (world ?tb) (failed_urls ?tb)") auto
  note p = process_url_raises [OF d]
  from download_raises [OF d] have w: "files w' = files (world ?tb)"
    "render_log w' = render_log (world ?tb)" by simp_all
  have rel: "files (world (process_url e ?tb u)) = files (world ?tb)"
    "render_log (world (process_url e ?tb u)) = render_log (world ?tb)"
    "new_count (process_url e ?tb u) = new_count ?tb"
    "existing_count (process_url e ?tb u) = existing_count ?tb"
    "error_count (process_url e ?tb u) = error_count ?tb + 1"
    "failed_urls (process_url e ?tb u) = failed_urls ?tb @ (u, message ex) # []"
    "failed_urls ?tb = failed_urls ?tb @ []"
    unfolding p using w by simp_all
  from process_urls_related [OF rel, of e after] assms show ?thesis
    by (simp add: outcomes_append process_urls_append process_urls_Cons)
qed


text \<open>
  C3. When \<open>download_and_convert_to_pdf\<close> raises for a URL, as it does when the request
  fails, the loop adds one to \<open>error_count\<close>, appends the URL with the message of the
  exception to \<open>failed_urls\<close> and leaves the other two counters and the files alone. The loop
  then goes on: every URL of the list is requested, in order; from any state of the counters
  the converter is called on the next post and what it returns and leaves behind is what the
  loop records. A post that raises has no influence on the others: with it in the list, the
  posts after it have the outcomes, and the run leaves the files, the renderer calls and the
  counts of new and existing posts, that the list without it gives; the only difference is one
  more error and the one record of the failed post, at its place in the failure list.
\<close>

theorem orchestrator_isolates_failures:
  "(\<forall>ex w' fu'.
      download_and_convert_to_pdf e u (world t) (failed_urls t) = (Inl ex, w', fu') \<longrightarrow>
        error_count (process_url e t u) = error_count t + 1
        \<and> failed_urls (process_url e t u) = failed_urls t @ [(u, message ex)]
        \<and> new_count (process_url e t u) = new_count t
        \<and> existing_count (process_url e t u) = existing_count t
        \<and> files (world (process_url e t u)) = files (world t))
   \<and> (\<forall>ex. requests_get e u = Inl ex \<longrightarrow>
        download_and_convert_to_pdf e u (world t) (failed_urls t)
          = (Inl ex, (world t)\<lparr>http_log := http_log (world t) @ [u]\<rparr>, failed_urls t))
   \<and> process_urls e t (before @ u # after)
       = process_urls e (process_url e (process_urls e t before) u) after
   \<and> http_log (world (process_urls e t urls)) = http_log (world t) @ urls
   \<and> (\<forall>result w' fu'.
        download_and_convert_to_pdf e u (world t) (failed_urls t) = (Inr result, w', fu') \<longrightarrow>
          world (process_url e t u) = w'
          \<and> failed_urls (process_url e t u) = fu'
          \<and> new_count (process_url e t u) = new_count t + (if result = Success then 1 else 0)
          \<and> existing_count (process_url e t u)
              = existing_count t + (if result = Existing then 1 else 0)
          \<and> error_count (process_url e t u) = error_count t + (if result = Error then 1 else 0))
   \<and> (\<forall>ex.
        fst (download_and_convert_to_pdf e u (world (process_urls e t before))
               (failed_urls (process_urls e t before))) = Inl ex \<longrightarrow>
          outcomes e t (before @ u # after)
            = outcomes e t before @ Inl ex # outcomes e (process_urls e t before) after
          \<and> outcomes e t (before @ after)
            = outcomes e t before @ outcomes e (process_urls e t before) after
          \<and> files (world (process_urls e t (before @ u # after)))
              = files (world (process_urls e t (before @ after)))
          \<and> render_log (world (process_urls e t (before @ u # after)))
              = render_log (world (process_urls e t (before @ after)))
          \<and> new_count (process_urls e t (before @ u # after))
              = new_count (process_urls e t (before @ after))
          \<and> existing_count (process_urls e t (before @ u # after))
              = existing_count (process_urls e t (before @ after))
          \<and> error_count (process_urls e t (before @ u # after))
              = error_count (process_urls e t (before @ after)) + 1
          \<and> (\<exists>rest. failed_urls (process_urls e t (before @ u # after))
                       = failed_urls (process_urls e t before) @ (u, message ex) # rest
                 \<and> failed_urls (process_urls e t (before @ after))
                       = failed_urls (process_urls e t before) @ rest))"
proof (intro conjI allI impI)
  fix ex w' fu'
  assume d: "download_and_convert_to_pdf e u (world t) (failed_urls t) = (Inl ex, w', fu')"
  note p = process_url_raises [OF d]
  show "error_count (process_url e t u) = error_count t + 1"
    and "failed_urls (process_url e t u) = failed_urls t @ [(u, message ex)]"
    and "new_count (process_url e t u) = new_count t"
    and "existing_count (process_url e t u) = existing_count t"
    unfolding p by simp_all
  from download_raises [OF d] show "files (world (process_url e t u)) = files (world t)"
    unfolding p by simp
next
  fix ex assume "requests_get e u = Inl ex"
  then show "download_and_convert_to_pdf e u (world t) (failed_urls t)
          = (Inl ex, (world t)\<lparr>http_log := http_log (world t) @ [u]\<rparr>, failed_urls t)"
    by (rule download_fetch_raises)
next
  show "process_urls e t (before @ u # after)
       = process_urls e (process_url e (process_urls e t before) u) after"
    by (simp add: process_urls_append process_urls_Cons)
next
  show "http_log (world (process_urls e t urls)) = http_log (world t) @ urls"
    by (rule process_urls_http_log)
next
  fix result w' fu'
  assume d: "download_and_convert_to_pdf e u (world t) (failed_urls t) = (Inr result, w', fu')"
  show "world (process_url e t u) = w'"
    and "failed_urls (process_url e t u) = fu'"
    and "new_count (process_url e t u) = new_count t + (if result = Success then 1 else 0)"
    and "existing_count (process_url e t u)
              = existing_count t + (if result = Existing then 1 else 0)"
    and "error_count (process_url e t u) = error_count t + (if result = Error then 1 else 0)"
    by (rule process_url_returns [OF d])+
next
  fix ex
  assume a: "fst (download_and_convert_to_pdf e u (world (process_urls e t before))
               (failed_urls (process_urls e t before))) = Inl ex"
  note i = raising_post_isolated [OF a, of after]
  from i show "outcomes e t (before @ u # after)
            = outcomes e t before @ Inl ex # outcomes e (process_urls e t before) after"
    by blast
  show "outcomes e t (before @ after)
            = outcomes e t before @ outcomes e (process_urls e t before) after"
    by (rule outcomes_append)
  from i show "files (world (process_urls e t (before @ u # after)))
              = files (world (process_urls e t (before @ after)))"
    by blast
  from i show "render_log (world (process_urls e t (before @ u # after)))
              = render_log (world (process_urls e t (before @ after)))"
    by blast
  from i show "new_count (process_urls e t (before @ u # after))
              = new_count (process_urls e t (before @ after))"
    by blast
  from i show "existing_count (process_urls e t (before @ u # after))
              = existing_count (process_urls e t (before @ after))"
    by blast
  from i show "error_count (process_urls e t (before @ u # after))
              = error_count (process_urls e t (before @ after)) + 1"
    by blast
  from i show "\<exists>rest. failed_urls (process_urls e t (before @ u # after))
                       = failed_urls (process_urls e t before) @ (u, message ex) # rest
                 \<and> failed_urls (process_urls e t (before @ after))
                       = failed_urls (process_urls e t before) @ rest"
    by blast
qed


lemma demo_title_fourth: "get_blog_title soup_fourth = ''Hi''"
  by (simp add: get_blog_title_def find_tag_def find_all_def soup_fourth_def strip_def
      strip_with_def isspace_char_def whitespace_def interesting_string_types_def)

lemma demo_filename_fourth:
  "post_filename demo_path ''Hi'' url_fourth = ''2024-03-09_Hi''"
  by (simp add: post_filename_def base_filename_def sanitize_filename_eq invalid_chars_def
      isspace_def isspace_char_def whitespace_def url_fourth_def extract_date_from_url_def
      match_date_def is_digit_def)

lemma demo_fetch_fourth:
  "fetch demo_env url_fourth w =
     (Inr \<lparr>response_text = text_fourth, http_error = None\<rparr>,
      w\<lparr>http_log := http_log w @ [url_fourth]\<rparr>)"
  by (simp add: fetch_def demo_env_def url_first_def url_second_def url_third_def url_fourth_def)

lemma demo_parse_fourth: "parse_html demo_env text_fourth = Inr soup_fourth"
  by (simp add: demo_env_def text_first_def text_third_def text_fourth_def demo_index_text_def)

lemma demo_render_fourth:
  "render_pdf demo_env html url_fourth = Inr (''%PDF '' @ html)"
  by (simp add: demo_env_def url_fourth_def url_third_def)

lemma demo_download_fourth_new:
  "files w ''2024-03-09_Hi.pdf'' = None \<Longrightarrow>
     download_and_convert_to_pdf demo_env url_fourth w fu =
       (Inr Success,
        w\<lparr>http_log := http_log w @ [url_fourth], render_log := render_log w @ [url_fourth],
          files := (files w)(''2024-03-09_Hi.pdf'' \<mapsto>
                      ''%PDF '' @ demo_str (clean_html_for_pdf soup_fourth))\<rparr>,
        fu)"
  by (simp add: download_and_convert_to_pdf_def demo_fetch_fourth demo_parse_fourth
      demo_title_fourth demo_env_fields demo_filename_fourth write_pdf_def write_file_def
      demo_render_fourth)

lemma demo_step_fourth:
  "files (world t) ''2024-03-09_Hi.pdf'' = None \<Longrightarrow>
     process_url demo_env t url_fourth =
       t\<lparr>new_count := new_count t + 1,
         world := (world t)\<lparr>http_log := http_log (world t) @ [url_fourth],
                    render_log := render_log (world t) @ [url_fourth],
                    files := (files (world t))(''2024-03-09_Hi.pdf'' \<mapsto>
                       ''%PDF '' @ demo_str (clean_html_for_pdf soup_fourth))\<rparr>\<rparr>"
  by (simp add: process_url_def demo_download_fourth_new)

lemma demo_run_isolated:
  "process_urls demo_env (start_tally demo_world) [url_first, url_second, url_fourth] =
     \<lparr>new_count = 2, existing_count = 0, error_count = 1,
      failed_urls = [(url_second, ''connection refused'')],
      world = \<lparr>files = [''2024-03-07_AB_Test.pdf'' \<mapsto>
                          ''%PDF '' @ demo_str (clean_html_for_pdf soup_first),
                        ''2024-03-09_Hi.pdf'' \<mapsto>
                          ''%PDF '' @ demo_str (clean_html_for_pdf soup_fourth)],
               http_log = [url_first, url_second, url_fourth],
               render_log = [url_first, url_fourth]\<rparr>\<rparr>"
  by (simp add: process_urls_def start_tally_def demo_world_def demo_step_first demo_step_second
      demo_step_fourth)

lemma demo_run_without:
  "process_urls demo_env (start_tally demo_world) [url_first, url_fourth] =
     \<lparr>new_count = 2, existing_count = 0, error_count = 0,
      failed_urls = [],
      world = \<lparr>files = [''2024-03-07_AB_Test.pdf'' \<mapsto>
                          ''%PDF '' @ demo_str (clean_html_for_pdf soup_first),
                        ''2024-03-09_Hi.pdf'' \<mapsto>
                          ''%PDF '' @ demo_str (clean_html_for_pdf soup_fourth)],
               http_log = [url_first, url_fourth],
               render_log = [url_first, url_fourth]\<rparr>\<rparr>"
  by (simp add: process_urls_def start_tally_def demo_world_def demo_step_first demo_step_fourth)

lemma demo_outcomes_first:
  "outcomes demo_env (start_tally demo_world) [url_first] = [Inr Success]"
  by (simp add: start_tally_def demo_world_def demo_download_first_new)

lemma demo_outcomes_fourth:
  "outcomes demo_env (process_urls demo_env (start_tally demo_world) [url_first]) [url_fourth]
     = [Inr Success]"
  by (simp add: process_urls_def start_tally_def demo_world_def demo_step_first
      demo_download_fourth_new)

theorem orchestrator_isolates_failures_witness:
  "requests_get demo_env url_second = Inl (Exception ''connection refused'')
   \<and> process_urls demo_env (start_tally demo_world) [url_first, url_second, url_fourth] =
       \<lparr>new_count = 2, existing_count = 0, error_count = 1,
        failed_urls = [(url_second, ''connection refused'')],
        world = \<lparr>files = [''2024-03-07_AB_Test.pdf'' \<mapsto>
                            ''%PDF '' @ demo_str (clean_html_for_pdf soup_first),
                          ''2024-03-09_Hi.pdf'' \<mapsto>
                            ''%PDF '' @ demo_str (clean_html_for_pdf soup_fourth)],
                 http_log = [url_first, url_second, url_fourth],
                 render_log = [url_first, url_fourth]\<rparr>\<rparr>
   \<and> outcomes demo_env (start_tally demo_world) [url_first, url_second, url_fourth]
       = [Inr Success, Inl (Exception ''connection refused''), Inr Success]
   \<and> files (world (process_urls demo_env (start_tally demo_world)
         [url_first, url_second, url_fourth]))
       = files (world (process_urls demo_env (start_tally demo_world) [url_first, url_fourth]))
   \<and> error_count (process_urls demo_env (start_tally demo_world)
         [url_first, url_second, url_fourth])
       = error_count (process_urls demo_env (start_tally demo_world) [url_first, url_fourth]) + 1"
proof -
  let ?t = "start_tally demo_world"
  let ?tb = "process_urls demo_env ?t [url_first]"
  note step = orchestrator_isolates_failures [where e = demo_env and u = url_second and t = ?tb]
  note inst = orchestrator_isolates_failures [where e = demo_env and u = url_second and t = ?t
      and before = "[url_first]" and after = "[url_fourth]"]
  from step demo_requests_second
  have d: "download_and_convert_to_pdf demo_env url_second (world ?tb) (failed_urls ?tb)
          = (Inl (Exception ''connection refused''),
             (world ?tb)\<lparr>http_log := http_log (world ?tb) @ [url_second]\<rparr>, failed_urls ?tb)"
    by blast
  then have h: "fst (download_and_convert_to_pdf demo_env url_second (world ?tb) (failed_urls ?tb))
          = Inl (Exception ''connection refused'')"
    by simp
  with inst have c:
    "outcomes demo_env ?t ([url_first] @ url_second # [url_fourth])
       = outcomes demo_env ?t [url_first] @ Inl (Exception ''connection refused'')
           # outcomes demo_env ?tb [url_fourth]
     \<and> files (world (process_urls demo_env ?t ([url_first] @ url_second # [url_fourth])))
         = files (world (process_urls demo_env ?t ([url_first] @ [url_fourth])))
     \<and> error_count (process_urls demo_env ?t ([url_first] @ url_second # [url_fourth]))
         = error_count (process_urls demo_env ?t ([url_first] @ [url_fourth])) + 1"
    by blast
  have l: "[url_first] @ url_second # [url_fourth] = [url_first, url_second, url_fourth]"
    "[url_first] @ [url_fourth] = [url_first, url_fourth]"
    by simp_all
  note c' = c [unfolded l demo_outcomes_first demo_outcomes_fourth]
  from c' have o: "outcomes demo_env ?t [url_first, url_second, url_fourth]
       = [Inr Success, Inl (Exception ''connection refused''), Inr Success]"
    by simp
  from demo_requests_second demo_run_isolated o c' show ?thesis by blast
qed


section \<open>The tally records the posts that failed\<close>

lemma download_records:
  "download_and_convert_to_pdf e u w fu = (r, w', fu') \<Longrightarrow>
     (r = Inr Error \<longrightarrow> (\<exists>m. fu' = fu @ [(u, m)])) \<and> (r \<noteq> Inr Error \<longrightarrow> fu' = fu)"
  unfolding converter_defs
  by (auto split: prod.splits sum.splits option.splits if_splits)

lemma process_url_error_record:
  assumes "download_and_convert_to_pdf e u (world t) (failed_urls t) = (Inr Error, w', fu')"
  shows "(\<exists>m. failed_urls (process_url e t u) = failed_urls t @ [(u, m)])
    \<and> error_count (process_url e t u) = error_count t + 1"
  using download_records [OF assms] process_url_returns(2,5) [OF assms] by simp

lemma process_url_no_record:
  assumes "download_and_convert_to_pdf e u (world t) (failed_urls t) = (Inr result, w', fu')"
    and "result \<noteq> Error"
  shows "failed_urls (process_url e t u) = failed_urls t
    \<and> error_count (process_url e t u) = error_count t"
  using download_records [OF assms(1)] process_url_returns(2,5) [OF assms(1)] assms(2) by simp

lemma process_url_outcome:
  "new_count (process_url e t u) = new_count t
     + (if fst (download_and_convert_to_pdf e u (world t) (failed_urls t)) = Inr Success
        then 1 else 0)
   \<and> existing_count (process_url e t u) = existing_count t
     + (if fst (download_and_convert_to_pdf e u (world t) (failed_urls t)) = Inr Existing
        then 1 else 0)
   \<and> error_count (process_url e t u) = error_count t
     + (if fst (download_and_convert_to_pdf e u (world t) (failed_urls t)) \<noteq> Inr Success
           \<and> fst (download_and_convert_to_pdf e u (world t) (failed_urls t)) \<noteq> Inr Existing
        then 1 else 0)
   \<and> map fst (failed_urls (process_url e t u)) = map fst (failed_urls t)
     @ (if fst (download_and_convert_to_pdf e u (world t) (failed_urls t)) \<noteq> Inr Success
           \<and> fst (download_and_convert_to_pdf e u (world t) (failed_urls t)) \<noteq> Inr Existing
        then [u] else [])"
proof -
  obtain r w' fu' where d: "download_and_convert_to_pdf e u (world t) (failed_urls t) = (r, w', fu')"
    by (cases "download_and_convert_to_pdf e u (world t) (failed_urls t)") auto
  show ?thesis
  proof (cases r)
    case (Inl ex)
    with d process_url_raises [of e u t ex w' fu'] show ?thesis by simp
  next
    case (Inr result)
    note r = this
    show ?thesis
    proof (cases "result = Error")
      case True
      with d r process_url_error_record [of e u t w' fu']
        process_url_returns(3,4) [of e u t result w' fu']
      show ?thesis by auto
    next
      case False
      with d r process_url_no_record [of e u t result w' fu']
        process_url_returns(3,4,5) [of e u t result w' fu']
      show ?thesis by (cases result) auto
    qed
  qed
qed

lemma process_urls_outcomes:
  "new_count (process_urls e t urls) = new_count t
     + length (filter (\<lambda>r. r = Inr Success) (outcomes e t urls))
   \<and> existing_count (process_urls e t urls) = existing_count t
     + length (filter (\<lambda>r. r = Inr Existing) (outcomes e t urls))
   \<and> error_count (process_urls e t urls) = error_count t
     + length (filter (\<lambda>r. r \<noteq> Inr Success \<and> r \<noteq> Inr Existing) (outcomes e t urls))
   \<and> map fst (failed_urls (process_urls e t urls)) = map fst (failed_urls t)
     @ map fst (filter (\<lambda>(u, r). r \<noteq> Inr Success \<and> r \<noteq> Inr Existing)
                  (zip urls (outcomes e t urls)))"
proof (induction urls arbitrary: t)
  case Nil
  show ?case by (simp add: process_urls_Nil)
next
  case (Cons u urls)
  from Cons.IH [of "process_url e t u"] process_url_outcome [of e t u] show ?case
    by (simp add: process_urls_Cons)
qed


text \<open>
  C9. After any number \<open>k\<close> of iterations of the loop, the three counters add up to \<open>k\<close> and
  \<open>error_count\<close> is the length of \<open>failed_urls\<close>. Each iteration adds one to exactly the sum
  of the counters, and adds to \<open>error_count\<close> what it adds to the length of \<open>failed_urls\<close>.
  So the summary of \<open>main\<close> accounts for every post that was found. The iteration for a
  post adds its record to \<open>failed_urls\<close>, and one to \<open>error_count\<close>, when the converter
  raises (the record has the message of the exception) and when it returns \<open>error\<close>; when
  it returns \<open>success\<close> or \<open>existing\<close> both stay as they are. Over the whole loop,
  \<open>new_count\<close>, \<open>existing_count\<close> and \<open>error_count\<close> count the calls that returned
  \<open>success\<close>, that returned \<open>existing\<close>, and that did neither, and the URLs of
  \<open>failed_urls\<close> are the URLs of these last calls, each once and in order.
\<close>

theorem tally_invariant:
  "(k \<le> length urls \<longrightarrow>
      new_count (process_urls e (start_tally w) (take k urls))
        + existing_count (process_urls e (start_tally w) (take k urls))
        + error_count (process_urls e (start_tally w) (take k urls)) = k
      \<and> error_count (process_urls e (start_tally w) (take k urls))
          = length (failed_urls (process_urls e (start_tally w) (take k urls))))
   \<and> new_count (process_url e t u) + existing_count (process_url e t u)
        + error_count (process_url e t u)
      = new_count t + existing_count t + error_count t + 1
   \<and> error_count (process_url e t u) + length (failed_urls t)
      = error_count t + length (failed_urls (process_url e t u))
   \<and> (\<forall>s. main e w = Summary s \<longrightarrow>
        (\<exists>blog_urls w'. get_blog_posts e base_url w = (Inr blog_urls, w')
           \<and> new_count s + existing_count s + error_count s = length blog_urls
           \<and> error_count s = length (failed_urls s)))
   \<and> (\<forall>ex w' fu'.
        download_and_convert_to_pdf e u (world t) (failed_urls t) = (Inl ex, w', fu') \<longrightarrow>
          failed_urls (process_url e t u) = failed_urls t @ [(u, message ex)]
          \<and> error_count (process_url e t u) = error_count t + 1)
   \<and> (\<forall>w' fu'.
        download_and_convert_to_pdf e u (world t) (failed_urls t) = (Inr Error, w', fu') \<longrightarrow>
          (\<exists>m. failed_urls (process_url e t u) = failed_urls t @ [(u, m)])
          \<and> error_count (process_url e t u) = error_count t + 1)
   \<and> (\<forall>result w' fu'.
        download_and_convert_to_pdf e u (world t) (failed_urls t) = (Inr result, w', fu')
        \<and> result \<noteq> Error \<longrightarrow>
          failed_urls (process_url e t u) = failed_urls t
          \<and> error_count (process_url e t u) = error_count t)
   \<and> length (outcomes e t urls) = length urls
   \<and> new_count (process_urls e t urls) = new_count t
       + length (filter (\<lambda>r. r = Inr Success) (outcomes e t urls))
   \<and> existing_count (process_urls e t urls) = existing_count t
       + length (filter (\<lambda>r. r = Inr Existing) (outcomes e t urls))
   \<and> error_count (process_urls e t urls) = error_count t
       + length (filter (\<lambda>r. r \<noteq> Inr Success \<and> r \<noteq> Inr Existing) (outcomes e t urls))
   \<and> map fst (failed_urls (process_urls e t urls)) = map fst (failed_urls t)
       @ map fst (filter (\<lambda>(u, r). r \<noteq> Inr Success \<and> r \<noteq> Inr Existing)
                    (zip urls (outcomes e t urls)))"
proof -
  have a: "k \<le> length urls \<longrightarrow>
      new_count (process_urls e (start_tally w) (take k urls))
        + existing_count (process_urls e (start_tally w) (take k urls))
        + error_count (process_urls e (start_tally w) (take k urls)) = k
      \<and> error_count (process_urls e (start_tally w) (take k urls))
          = length (failed_urls (process_urls e (start_tally w) (take k urls)))"
    using process_urls_counts [of e "start_tally w" "take k urls"]
      process_urls_failed [of e "start_tally w" "take k urls"]
    by (simp add: start_tally_def)
  have d: "\<forall>s. main e w = Summary s \<longrightarrow>
        (\<exists>blog_urls w'. get_blog_posts e base_url w = (Inr blog_urls, w')
           \<and> new_count s + existing_count s + error_count s = length blog_urls
           \<and> error_count s = length (failed_urls s))"
  proof (intro allI impI)
    fix s assume m: "main e w = Summary s"
    obtain r w' where g: "get_blog_posts e base_url w = (r, w')"
      by (cases "get_blog_posts e base_url w") auto
    with m obtain blog_urls where r: "r = Inr blog_urls"
      and s: "s = process_urls e (start_tally w') blog_urls"
      by (cases r) (auto simp: main_def split: if_splits)
    from process_urls_counts [of e "start_tally w'" blog_urls]
    have c: "new_count s + existing_count s + error_count s = length blog_urls"
      unfolding s by (simp add: start_tally_def)
    from process_urls_failed [of e "start_tally w'" blog_urls]
    have f: "error_count s = length (failed_urls s)"
      unfolding s by (simp add: start_tally_def)
    from g r c f
    show "\<exists>blog_urls w'. get_blog_posts e base_url w = (Inr blog_urls, w')
           \<and> new_count s + existing_count s + error_count s = length blog_urls
           \<and> error_count s = length (failed_urls s)"
      by blast
  qed
  have x: "\<forall>ex w' fu'.
        download_and_convert_to_pdf e u (world t) (failed_urls t) = (Inl ex, w', fu') \<longrightarrow>
          failed_urls (process_url e t u) = failed_urls t @ [(u, message ex)]
          \<and> error_count (process_url e t u) = error_count t + 1"
  proof (intro allI impI)
    fix ex w' fu'
    assume "download_and_convert_to_pdf e u (world t) (failed_urls t) = (Inl ex, w', fu')"
    from process_url_raises [OF this]
    show "failed_urls (process_url e t u) = failed_urls t @ [(u, message ex)]
          \<and> error_count (process_url e t u) = error_count t + 1"
      by simp
  qed
  have y: "\<forall>w' fu'.
        download_and_convert_to_pdf e u (world t) (failed_urls t) = (Inr Error, w', fu') \<longrightarrow>
          (\<exists>m. failed_urls (process_url e t u) = failed_urls t @ [(u, m)])
          \<and> error_count (process_url e t u) = error_count t + 1"
    using process_url_error_record [of e u t] by blast
  have z: "\<forall>result w' fu'.
        download_and_convert_to_pdf e u (world t) (failed_urls t) = (Inr result, w', fu')
        \<and> result \<noteq> Error \<longrightarrow>
          failed_urls (process_url e t u) = failed_urls t
          \<and> error_count (process_url e t u) = error_count t"
    using process_url_no_record [of e u t] by blast
  from a process_url_counts [of e t u] process_url_failed [of e t u] d x y z
    length_outcomes [of e t urls] process_urls_outcomes [of e t urls]
  show ?thesis by (intro conjI) blast+
qed

lemma demo_outcomes_three:
  "outcomes demo_env (start_tally demo_world) [url_first, url_second, url_third]
     = [Inr Success, Inl (Exception ''connection refused''), Inr Error]"
  by (simp add: start_tally_def demo_world_def demo_download_first_new demo_step_first
      demo_download_second demo_step_second demo_download_third)

theorem tally_invariant_witness:
  "(3::nat) \<le> length [url_first, url_second, url_third]
   \<and> process_urls demo_env (start_tally demo_world) [url_first, url_second, url_third] =
       \<lparr>new_count = 1, existing_count = 0, error_count = 2,
        failed_urls = [(url_second, ''connection refused''), (url_third, ''render failed'')],
        world = \<lparr>files = [''2024-03-07_AB_Test.pdf'' \<mapsto>
                            ''%PDF '' @ demo_str (clean_html_for_pdf soup_first),
                          ''Third_post.html'' \<mapsto> text_third],
                 http_log = [url_first, url_second, url_third],
                 render_log = [url_first, url_third]\<rparr>\<rparr>
   \<and> new_count (process_urls demo_env (start_tally demo_world)
         [url_first, url_second, url_third])
       + existing_count (process_urls demo_env (start_tally demo_world)
         [url_first, url_second, url_third])
       + error_count (process_urls demo_env (start_tally demo_world)
         [url_first, url_second, url_third]) = 3
   \<and> error_count (process_urls demo_env (start_tally demo_world)
         [url_first, url_second, url_third])
       = length (failed_urls (process_urls demo_env (start_tally demo_world)
         [url_first, url_second, url_third]))
   \<and> outcomes demo_env (start_tally demo_world) [url_first, url_second, url_third]
       = [Inr Success, Inl (Exception ''connection refused''), Inr Error]
   \<and> map fst (failed_urls (process_urls demo_env (start_tally demo_world)
         [url_first, url_second, url_third])) = [url_second, url_third]
   \<and> error_count (process_urls demo_env (start_tally demo_world)
         [url_first, url_second, url_third]) = 2"
proof -
  let ?urls = "[url_first, url_second, url_third]"
  have k: "(3::nat) \<le> length ?urls" by simp
  have r: "take 3 ?urls = ?urls" by simp
  note inst = tally_invariant [where e = demo_env and w = demo_world and k = 3
      and urls = ?urls and t = "start_tally demo_world"]
  from inst k
  have "new_count (process_urls demo_env (start_tally demo_world) (take 3 ?urls))
       + existing_count (process_urls demo_env (start_tally demo_world) (take 3 ?urls))
       + error_count (process_urls demo_env (start_tally demo_world) (take 3 ?urls)) = 3
   \<and> error_count (process_urls demo_env (start_tally demo_world) (take 3 ?urls))
       = length (failed_urls (process_urls demo_env (start_tally demo_world) (take 3 ?urls)))"
    by blast
  note inv = this [unfolded r]
  from inst have "map fst (failed_urls (process_urls demo_env (start_tally demo_world) ?urls))
      = map fst (failed_urls (start_tally demo_world))
       @ map fst (filter (\<lambda>(u, r). r \<noteq> Inr Success \<and> r \<noteq> Inr Existing)
                    (zip ?urls (outcomes demo_env (start_tally demo_world) ?urls)))"
    by blast
  then have f: "map fst (failed_urls (process_urls demo_env (start_tally demo_world) ?urls))
      = [url_second, url_third]"
    unfolding demo_outcomes_three by (simp add: start_tally_def)
  from inst have "error_count (process_urls demo_env (start_tally demo_world) ?urls)
      = error_count (start_tally demo_world)
       + length (filter (\<lambda>r. r \<noteq> Inr Success \<and> r \<noteq> Inr Existing)
           (outcomes demo_env (start_tally demo_world) ?urls))"
    by blast
  then have c: "error_count (process_urls demo_env (start_tally demo_world) ?urls) = 2"
    unfolding demo_outcomes_three by (simp add: start_tally_def)
  from k demo_run_three inv demo_outcomes_three f c show ?thesis by blast
qed

end
